theory Spec2Isabelle
  imports Main "HOL-Library.Multiset" "HOL-Library.Char_ord" "HOL-Library.List_Lexorder"
begin

section \<open>Strings\<close>

text \<open>
  A Python \<open>str\<close> is modelled as a \<open>string\<close>; a \<open>char\<close> stands for the code point of
  the same number, so the model covers the texts whose code points are below 256.  The
  character classes below are those of Python's \<open>str\<close> methods and of the \<open>re\<close> module
  (Unicode patterns) on that range.
\<close>

definition code :: "char \<Rightarrow> nat" where
  "code c = of_char c"

definition isspace :: "char \<Rightarrow> bool" where
  \<comment> \<open>\<open>str.isspace\<close> and \<open>\s\<close>\<close>
  "isspace c = (code c \<in> {9, 10, 11, 12, 13, 28, 29, 30, 31, 32, 133, 160})"

definition isdigit :: "char \<Rightarrow> bool" where
  \<comment> \<open>\<open>\d\<close>\<close>
  "isdigit c = (48 \<le> code c \<and> code c \<le> 57)"

definition isword :: "char \<Rightarrow> bool" where
  \<comment> \<open>\<open>\w\<close>: alphanumeric or underscore\<close>
  "isword c = (let n = code c in
     (48 \<le> n \<and> n \<le> 57) \<or> (65 \<le> n \<and> n \<le> 90) \<or> n = 95 \<or> (97 \<le> n \<and> n \<le> 122) \<or>
     n \<in> {170, 178, 179, 181, 185, 186, 188, 189, 190} \<or>
     (192 \<le> n \<and> n \<le> 214) \<or> (216 \<le> n \<and> n \<le> 246) \<or> 248 \<le> n)"

definition is_linebreak :: "char \<Rightarrow> bool" where
  \<comment> \<open>the line boundaries of \<open>str.splitlines\<close>\<close>
  "is_linebreak c = (code c \<in> {10, 11, 12, 13, 28, 29, 30, 133})"

definition startswith :: "string \<Rightarrow> string \<Rightarrow> bool" where
  "startswith s p = (take (length p) s = p)"

definition endswith :: "string \<Rightarrow> string \<Rightarrow> bool" where
  "endswith s p = (length p \<le> length s \<and> drop (length s - length p) s = p)"

definition strip :: "string \<Rightarrow> string" where
  "strip s = rev (dropWhile isspace (rev (dropWhile isspace s)))"

fun splitlines_from :: "string \<Rightarrow> string \<Rightarrow> string list" where
  "splitlines_from cur [] = (if cur = [] then [] else [cur])"
| "splitlines_from cur (c # cs) =
     (if c = CHR 0x0D \<and> cs \<noteq> [] \<and> hd cs = CHR 0x0A then cur # splitlines_from [] (tl cs)
      else if is_linebreak c then cur # splitlines_from [] cs
      else splitlines_from (cur @ [c]) cs)"

definition splitlines :: "string \<Rightarrow> string list" where
  "splitlines s = splitlines_from [] s"

fun join :: "string \<Rightarrow> string list \<Rightarrow> string" where
  "join sep [] = []"
| "join sep [x] = x"
| "join sep (x # y # ys) = x @ sep @ join sep (y # ys)"

definition digit_val :: "char \<Rightarrow> int" where
  "digit_val c = int (code c) - 48"

definition py_int :: "string \<Rightarrow> int" where
  \<comment> \<open>\<open>int(s)\<close> on a non-empty string of ASCII digits\<close>
  "py_int s = foldl (\<lambda>a c. 10 * a + digit_val c) 0 s"


section \<open>Regular expressions\<close>

text \<open>
  The patterns of the source use literals, character classes, repetition of a single
  character class (greedy or lazy), groups, alternation, an optional group, \<open>^\<close>, \<open>$\<close>,
  \<open>\b\<close> and a negative lookahead.  \<open>matches\<close> lists, in the order in which a backtracking
  matcher tries them, every way a pattern can match at a position; \<open>re.search\<close> takes the
  first way at the leftmost position that has one.  A position is the character before
  it (none at the start of the string) and the rest of the string.
\<close>

datatype re =
    Eps
  | Chr "char \<Rightarrow> bool"
  | Rep "char \<Rightarrow> bool" nat bool
  | Cat re re
  | Alt re re
  | Grp nat re
  | Bol
  | Eol
  | WordB
  | NotAhead re

type_synonym pos = "char option \<times> string"
type_synonym groups = "(nat \<times> string) list"

definition advance :: "nat \<Rightarrow> pos \<Rightarrow> pos" where
  "advance k p = (if k = 0 then p else (Some (snd p ! (k - 1)), drop k (snd p)))"

definition rep_counts :: "(char \<Rightarrow> bool) \<Rightarrow> nat \<Rightarrow> bool \<Rightarrow> string \<Rightarrow> nat list" where
  "rep_counts p m greedy s =
     (let mx = length (takeWhile p s);
          cs = (if m \<le> mx then [m ..< Suc mx] else [])
      in if greedy then rev cs else cs)"

definition word_at :: "char option \<Rightarrow> bool" where
  "word_at c = (case c of None \<Rightarrow> False | Some x \<Rightarrow> isword x)"

fun matches :: "re \<Rightarrow> pos \<Rightarrow> groups \<Rightarrow> (pos \<times> groups) list" where
  "matches Eps p g = [(p, g)]"
| "matches (Chr f) p g =
     (case snd p of [] \<Rightarrow> [] | c # cs \<Rightarrow> if f c then [((Some c, cs), g)] else [])"
| "matches (Rep f m greedy) p g = map (\<lambda>k. (advance k p, g)) (rep_counts f m greedy (snd p))"
| "matches (Cat a b) p g = concat (map (\<lambda>(p', g'). matches b p' g') (matches a p g))"
| "matches (Alt a b) p g = matches a p g @ matches b p g"
| "matches (Grp n r) p g =
     map (\<lambda>(p', g'). (p', (n, take (length (snd p) - length (snd p')) (snd p)) # g'))
       (matches r p g)"
| "matches Bol p g = (if fst p = None then [(p, g)] else [])"
| "matches Eol p g = (if snd p = [] \<or> snd p = [CHR 0x0A] then [(p, g)] else [])"
| "matches WordB p g =
     (if word_at (fst p) \<noteq> word_at (case snd p of [] \<Rightarrow> None | c # _ \<Rightarrow> Some c)
      then [(p, g)] else [])"
| "matches (NotAhead r) p g = (if matches r p g = [] then [(p, g)] else [])"

fun search_from :: "re \<Rightarrow> char option \<Rightarrow> string \<Rightarrow> groups option" where
  "search_from r prev s =
     (case matches r (prev, s) [] of
        (p, g) # _ \<Rightarrow> Some g
      | [] \<Rightarrow> (case s of [] \<Rightarrow> None | c # cs \<Rightarrow> search_from r (Some c) cs))"

definition re_search :: "re \<Rightarrow> string \<Rightarrow> groups option" where
  "re_search r s = search_from r None s"

definition grp :: "groups \<Rightarrow> nat \<Rightarrow> string" where
  \<comment> \<open>\<open>m.group(n)\<close>; each group the source reads takes part in every match of its pattern\<close>
  "grp g n = (case map_of g n of Some s \<Rightarrow> s | None \<Rightarrow> [])"

fun seq :: "re list \<Rightarrow> re" where
  "seq [] = Eps"
| "seq [r] = r"
| "seq (r # rs) = Cat r (seq rs)"

definition lit :: "string \<Rightarrow> re" where
  "lit s = seq (map (\<lambda>c. Chr (\<lambda>x. x = c)) s)"

definition opt :: "re \<Rightarrow> re" where
  "opt r = Alt r Eps"


section \<open>The changed-line pair extractor\<close>

type_synonym changed_line = "string option \<times> string option \<times> int option \<times> int option"

record ext_state =
  changes :: "changed_line list"
  old_line_num :: "int option"
  new_line_num :: "int option"
  last_was_minus :: bool
  last_minus_content :: "string option"
  last_minus_line_num :: "int option"

definition hunk_re :: re where
  \<comment> \<open>\<open>@@ -(\d+)(?:,(\d+))? \+(\d+)(?:,(\d+))? @@\<close>\<close>
  "hunk_re = seq [lit ''@@ -'', Grp 1 (Rep isdigit 1 True),
                  opt (Cat (lit '','') (Grp 2 (Rep isdigit 1 True))),
                  lit '' +'', Grp 3 (Rep isdigit 1 True),
                  opt (Cat (lit '','') (Grp 4 (Rep isdigit 1 True))),
                  lit '' @@'']"

definition hunk_starts :: "string \<Rightarrow> (int option \<times> int option)" where
  \<comment> \<open>the two counters a hunk header line sets (lines 75 to 93)\<close>
  "hunk_starts line =
     (case re_search hunk_re line of
        Some m \<Rightarrow>
          (let old_start = py_int (grp m 1); new_start = py_int (grp m 3) in
           if old_start > 0 \<and> new_start > 0 \<and> old_start \<le> 100000000 \<and> new_start \<le> 100000000
           then (Some old_start, Some new_start)
           else (None, None))
      | None \<Rightarrow> (None, None))"

definition pending :: "ext_state \<Rightarrow> bool" where
  \<comment> \<open>\<open>last_was_minus and last_minus_content is not None and last_minus_line_num is not None\<close>\<close>
  "pending st = (last_was_minus st \<and> last_minus_content st \<noteq> None \<and> last_minus_line_num st \<noteq> None)"

definition clear_pending :: "ext_state \<Rightarrow> ext_state" where
  "clear_pending st = st\<lparr>last_was_minus := False, last_minus_content := None, last_minus_line_num := None\<rparr>"

definition emit :: "changed_line \<Rightarrow> ext_state \<Rightarrow> ext_state" where
  "emit t st = st\<lparr>changes := changes st @ [t]\<rparr>"

definition incr :: "int option \<Rightarrow> int option" where
  "incr n = map_option (\<lambda>k. k + 1) n"

definition step :: "ext_state \<Rightarrow> string \<Rightarrow> ext_state" where
  "step st line =
     (if startswith line ''@@'' then
        clear_pending (st\<lparr>old_line_num := fst (hunk_starts line), new_line_num := snd (hunk_starts line)\<rparr>)
      else if startswith line ''---'' \<or> startswith line ''+++'' then st
      else if line = [] then st
      else if startswith line ''-'' \<and> \<not> startswith line ''--'' then
        (case old_line_num st of
           Some n \<Rightarrow> st\<lparr>last_minus_content := Some (drop 1 line), last_minus_line_num := Some n,
                        last_was_minus := True, old_line_num := Some (n + 1)\<rparr>
         | None \<Rightarrow> st)
      else if startswith line ''+'' \<and> \<not> startswith line ''++'' then
        (let content = drop 1 line in
         if pending st then
           clear_pending
             ((emit (last_minus_content st, Some content, last_minus_line_num st, new_line_num st) st)
                \<lparr>new_line_num := incr (new_line_num st)\<rparr>)
         else
           (emit (None, Some content, None, new_line_num st) st)\<lparr>new_line_num := incr (new_line_num st)\<rparr>)
      else
        (let st' = (if pending st
                    then clear_pending (emit (last_minus_content st, None, last_minus_line_num st, None) st)
                    else st)
         in st'\<lparr>old_line_num := incr (old_line_num st'), new_line_num := incr (new_line_num st')\<rparr>))"

definition init_state :: ext_state where
  "init_state = \<lparr>changes = [], old_line_num = None, new_line_num = None, last_was_minus = False,
                 last_minus_content = None, last_minus_line_num = None\<rparr>"

definition flush :: "ext_state \<Rightarrow> changed_line list" where
  "flush st = (if pending st then changes st @ [(last_minus_content st, None, last_minus_line_num st, None)]
               else changes st)"

definition extract_lines :: "string list \<Rightarrow> changed_line list" where
  "extract_lines ls = flush (foldl step init_state ls)"

definition extract_changed_lines :: "string \<Rightarrow> changed_line list" where
  "extract_changed_lines diff_str = extract_lines (splitlines diff_str)"


section \<open>Parameter extraction\<close>

definition dquote :: char where
  "dquote = CHR 0x22"

definition not_newline :: "char \<Rightarrow> bool" where
  \<comment> \<open>the dot of a pattern\<close>
  "not_newline c = (c \<noteq> CHR 0x0A)"

definition param_re :: re where
  \<comment> \<open>\<open>Param\("([^"]+)",\s*(".*?"|\S+)\)\s*;\<close>\<close>
  "param_re = seq [lit ''Param('', Chr (\<lambda>c. c = dquote), Grp 1 (Rep (\<lambda>c. c \<noteq> dquote) 1 True),
                   Chr (\<lambda>c. c = dquote), lit '','', Rep isspace 0 True,
                   Grp 2 (Alt (seq [Chr (\<lambda>c. c = dquote), Rep not_newline 0 False, Chr (\<lambda>c. c = dquote)])
                              (Rep (\<lambda>c. \<not> isspace c) 1 True)),
                   lit '')'', Rep isspace 0 True, lit '';'']"

definition prop_re :: re where
  \<comment> \<open>\<open>^\s*(?!Param\b)(\w+)\s*\((.*?)\)\s*(?:;|\{)\<close>\<close>
  "prop_re = seq [Bol, Rep isspace 0 True, NotAhead (Cat (lit ''Param'') WordB),
                  Grp 1 (Rep isword 1 True), Rep isspace 0 True, lit ''('',
                  Grp 2 (Rep not_newline 0 False), lit '')'', Rep isspace 0 True,
                  Alt (lit '';'') (lit ''{'')]"

definition ini_kv_re :: re where
  \<comment> \<open>\<open>^\s*([^=#\[\s]+?)\s*=\s*(.+?)\s*$\<close>\<close>
  "ini_kv_re = seq [Bol, Rep isspace 0 True,
                    Grp 1 (Rep (\<lambda>c. c \<noteq> CHR ''='' \<and> c \<noteq> CHR ''#'' \<and> c \<noteq> CHR ''['' \<and> \<not> isspace c) 1 False),
                    Rep isspace 0 True, lit ''='', Rep isspace 0 True,
                    Grp 2 (Rep not_newline 1 False), Rep isspace 0 True, Eol]"

definition json_kv_re :: re where
  \<comment> \<open>\<open>^\s*"([^"]+)":\s*(.+?)\s*,?\s*$\<close>\<close>
  "json_kv_re = seq [Bol, Rep isspace 0 True, Chr (\<lambda>c. c = dquote),
                     Grp 1 (Rep (\<lambda>c. c \<noteq> dquote) 1 True), Chr (\<lambda>c. c = dquote), lit '':'',
                     Rep isspace 0 True, Grp 2 (Rep not_newline 1 False), Rep isspace 0 True,
                     opt (lit '',''), Rep isspace 0 True, Eol]"

definition unquote :: "string \<Rightarrow> string" where
  \<comment> \<open>\<open>if value.startswith('"') and value.endswith('"'): value = value[1:-1]\<close>\<close>
  "unquote v = (if startswith v [dquote] \<and> endswith v [dquote] then butlast (drop 1 v) else v)"

fun split_on :: "char \<Rightarrow> string \<Rightarrow> string list" where
  \<comment> \<open>\<open>s.split(c)\<close>\<close>
  "split_on c [] = [[]]"
| "split_on c (x # xs) =
     (if x = c then [] # split_on c xs
      else (case split_on c xs of p # ps \<Rightarrow> (x # p) # ps | [] \<Rightarrow> [[x]]))"

definition rstrip_char :: "char \<Rightarrow> string \<Rightarrow> string" where
  \<comment> \<open>\<open>s.rstrip(c)\<close>\<close>
  "rstrip_char c s = rev (dropWhile (\<lambda>x. x = c) (rev s))"

fun dict_set :: "('k \<times> 'v) list \<Rightarrow> 'k \<Rightarrow> 'v \<Rightarrow> ('k \<times> 'v) list" where
  \<comment> \<open>\<open>d[k] = v\<close> on a dict, which keeps the position of a key it already holds\<close>
  "dict_set [] k v = [(k, v)]"
| "dict_set ((k', v') # d) k v = (if k' = k then (k, v) # d else (k', v') # dict_set d k v)"

definition parse_params_line :: "string \<Rightarrow> (string \<times> string) option" where
  \<comment> \<open>the body of the loop of \<open>_parse_params\<close>: the entry one line stores, if any\<close>
  "parse_params_line line =
     (case re_search param_re line of
        Some m \<Rightarrow> Some (grp m 1, unquote (strip (grp m 2)))
      | None \<Rightarrow>
          (case re_search prop_re line of
             Some m \<Rightarrow> Some (grp m 1, unquote (strip (grp m 2)))
           | None \<Rightarrow> None))"

definition parse_params :: "string list \<Rightarrow> (string \<times> string) list" where
  "parse_params lines =
     foldl (\<lambda>result line. case parse_params_line line of
                               Some (name, val) \<Rightarrow> dict_set result name val
                             | None \<Rightarrow> result) [] lines"

definition extract_param_from_line :: "string \<Rightarrow> (string \<times> string) option" where
  \<comment> \<open>\<open>None\<close> stands for the pair \<open>(None, None)\<close> of the source\<close>
  "extract_param_from_line line =
     (if line = [] then None
      else case re_search param_re line of
        Some m \<Rightarrow> Some (grp m 1, unquote (strip (grp m 2)))
      | None \<Rightarrow>
          (case re_search prop_re line of
             Some m \<Rightarrow>
               (let val = strip (grp m 2);
                    val = (if CHR '','' \<in> set val then strip (last (map strip (split_on CHR '','' val))) else val)
                in Some (grp m 1, unquote val))
           | None \<Rightarrow>
               (case re_search ini_kv_re line of
                  Some m \<Rightarrow> Some (strip (grp m 1), unquote (strip (grp m 2)))
                | None \<Rightarrow> None)))"

definition extract_json_from_line :: "string \<Rightarrow> (string \<times> string) option" where
  \<comment> \<open>the key and value \<open>_extract_json_key_changes\<close> reads from one line\<close>
  "extract_json_from_line line =
     (case re_search json_kv_re line of
        Some m \<Rightarrow> Some (grp m 1, unquote (strip (rstrip_char CHR '','' (strip (grp m 2)))))
      | None \<Rightarrow> None)"

definition truthy :: "(string \<times> string) option \<Rightarrow> bool" where
  \<comment> \<open>the truth value of the name: neither \<open>None\<close> nor empty\<close>
  "truthy r = (case r of None \<Rightarrow> False | Some (name, val) \<Rightarrow> name \<noteq> [])"

definition change_of :: "(string \<times> string) option \<Rightarrow> (string \<times> string) option \<Rightarrow> (string \<times> string \<times> string) list" where
  \<comment> \<open>the \<open>if\<close>/\<open>elif\<close> chain that ends the loop body of both extractors\<close>
  "change_of old new =
     (if truthy old \<and> truthy new \<and> map_option fst old = map_option fst new
         \<and> map_option snd old \<noteq> map_option snd new
      then (case (old, new) of (Some (on, ov), Some (nn, nv)) \<Rightarrow> [(on, ov, nv)] | _ \<Rightarrow> [])
      else if truthy new \<and> \<not> truthy old
      then (case new of Some (nn, nv) \<Rightarrow> [(nn, [], nv)] | None \<Rightarrow> [])
      else if truthy old \<and> \<not> truthy new
      then (case old of Some (on, ov) \<Rightarrow> [(on, ov, [])] | None \<Rightarrow> [])
      else [])"

definition on_line :: "(string \<Rightarrow> (string \<times> string) option) \<Rightarrow> string option \<Rightarrow> (string \<times> string) option" where
  \<comment> \<open>\<open>f(line) if line else (None, None)\<close>\<close>
  "on_line f line = (case line of None \<Rightarrow> None | Some l \<Rightarrow> if l = [] then None else f l)"

definition extract_json_key_changes :: "changed_line list \<Rightarrow> (string \<times> string \<times> string) list" where
  "extract_json_key_changes cls =
     concat (map (\<lambda>(old_line, new_line, old_num, new_num).
        change_of (on_line extract_json_from_line old_line) (on_line extract_json_from_line new_line)) cls)"

definition extract_param_changes_from_diff :: "changed_line list \<Rightarrow> bool \<Rightarrow> (string \<times> string \<times> string) list" where
  "extract_param_changes_from_diff cls is_json =
     (if is_json then extract_json_key_changes cls
      else concat (map (\<lambda>(old_line, new_line, old_num, new_num).
        change_of (on_line extract_param_from_line old_line) (on_line extract_param_from_line new_line)) cls))"


section \<open>The JSON serialiser\<close>

text \<open>
  \<open>json.loads\<close> returns a value of the type below: \<open>None\<close>, a boolean, an integer, a
  float, a string, a list, or a dict, whose items are kept in the order of their first
  insertion and have different keys.  Floating point is not modelled: a float is a value of
  a type parameter, and the library writes it with \<open>float_repr\<close>.  \<open>iterencode\<close> is the
  encoder \<open>json.dumps\<close> runs on such a value, with its options \<open>indent\<close>, \<open>sort_keys\<close>
  and \<open>ensure_ascii\<close> and the current nesting level; strings are compared as Python
  compares them, character by character on the code points.
\<close>

datatype 'f json =
    JNull
  | JBool bool
  | JInt int
  | JFloat 'f
  | JStr string
  | JArr "'f json list"
  | JObj "(string \<times> 'f json) list"

function show_nat :: "nat \<Rightarrow> string" where
  "show_nat n = (if n < 10 then [char_of (48 + n)]
                 else show_nat (n div 10) @ [char_of (48 + n mod 10)])"
  by pat_completeness auto
termination
  by (relation "measure id") auto

declare show_nat.simps [simp del]

definition int_repr :: "int \<Rightarrow> string" where
  \<comment> \<open>\<open>int.__repr__\<close>\<close>
  "int_repr i = (if i < 0 then CHR ''-'' # show_nat (nat (- i)) else show_nat (nat i))"

definition hex_digit :: "nat \<Rightarrow> char" where
  "hex_digit n = ''0123456789abcdef'' ! (n mod 16)"

definition u_escape :: "char \<Rightarrow> string" where
  \<comment> \<open>the escape with four hexadecimal digits of a code point below 256\<close>
  "u_escape c = [CHR 0x5C, CHR ''u'', CHR ''0'', CHR ''0'',
                 hex_digit (code c div 16), hex_digit (code c mod 16)]"

definition escape_char :: "bool \<Rightarrow> char \<Rightarrow> string" where
  \<comment> \<open>a backslash, a double quote and the control characters are escaped; with
      \<open>ensure_ascii\<close> so is every character that is not between the space and the tilde\<close>
  "escape_char ensure_ascii c =
     (if c = CHR 0x5C then [CHR 0x5C, CHR 0x5C]
      else if c = dquote then [CHR 0x5C, dquote]
      else if c = CHR 0x08 then [CHR 0x5C, CHR ''b'']
      else if c = CHR 0x0C then [CHR 0x5C, CHR ''f'']
      else if c = CHR 0x0A then [CHR 0x5C, CHR ''n'']
      else if c = CHR 0x0D then [CHR 0x5C, CHR ''r'']
      else if c = CHR 0x09 then [CHR 0x5C, CHR ''t'']
      else if code c < 32 \<or> (ensure_ascii \<and> code c > 126) then u_escape c
      else [c])"

definition encode_string :: "bool \<Rightarrow> string \<Rightarrow> string" where
  "encode_string ensure_ascii s = dquote # concat (map (escape_char ensure_ascii) s) @ [dquote]"

definition newline_indent :: "nat option \<Rightarrow> nat \<Rightarrow> string" where
  \<comment> \<open>with an indentation, a newline and the indentation once per level\<close>
  "newline_indent indent level =
     (case indent of
        None \<Rightarrow> []
      | Some n \<Rightarrow> CHR 0x0A # concat (replicate level (replicate n CHR '' '')))"

definition item_separator :: "nat option \<Rightarrow> string" where
  "item_separator indent = (case indent of None \<Rightarrow> '', '' | Some n \<Rightarrow> '','')"

definition ordered_items :: "bool \<Rightarrow> (string \<times> 'a) list \<Rightarrow> (string \<times> 'a) list" where
  \<comment> \<open>\<open>sorted(dct.items()) if sort_keys else dct.items()\<close>\<close>
  "ordered_items sort_keys kvs = (if sort_keys then sort_key fst kvs else kvs)"

function iterencode ::
  "('f \<Rightarrow> string) \<Rightarrow> nat option \<Rightarrow> bool \<Rightarrow> bool \<Rightarrow> nat \<Rightarrow> 'f json \<Rightarrow> string" where
  "iterencode fs ind sk ea lvl JNull = ''null''"
| "iterencode fs ind sk ea lvl (JBool b) = (if b then ''true'' else ''false'')"
| "iterencode fs ind sk ea lvl (JInt i) = int_repr i"
| "iterencode fs ind sk ea lvl (JFloat f) = fs f"
| "iterencode fs ind sk ea lvl (JStr s) = encode_string ea s"
| "iterencode fs ind sk ea lvl (JArr xs) =
     (if xs = [] then ''[]''
      else ''['' @ newline_indent ind (lvl + 1)
           @ join (item_separator ind @ newline_indent ind (lvl + 1))
                  (map (iterencode fs ind sk ea (lvl + 1)) xs)
           @ newline_indent ind lvl @ '']'')"
| "iterencode fs ind sk ea lvl (JObj kvs) =
     (if kvs = [] then ''{}''
      else ''{'' @ newline_indent ind (lvl + 1)
           @ join (item_separator ind @ newline_indent ind (lvl + 1))
                  (map (\<lambda>(k, v). encode_string ea k @ '': '' @ iterencode fs ind sk ea (lvl + 1) v)
                       (ordered_items sk kvs))
           @ newline_indent ind lvl @ ''}'')"
  by pat_completeness auto
termination
proof (relation "measure (\<lambda>(fs, ind, sk, ea, lvl, v). size v)")
  show "wf (measure (\<lambda>(fs, ind, sk, ea, lvl, v). size v))" by simp
next
  fix fs :: "'f \<Rightarrow> string" and ind sk ea lvl and xs :: "'f json list" and x
  assume "x \<in> set xs"
  then have "size x < Suc (size_list size xs)"
    by (induction xs) auto
  then show "((fs, ind, sk, ea, lvl + 1, x), (fs, ind, sk, ea, lvl, JArr xs))
               \<in> measure (\<lambda>(fs, ind, sk, ea, lvl, v). size v)"
    by simp
next
  fix fs :: "'f \<Rightarrow> string" and ind sk ea lvl and kvs :: "(string \<times> 'f json) list" and x k v
  assume "x \<in> set (ordered_items sk kvs)" and "(k, v) = x"
  then have "(k, v) \<in> set kvs" by (simp add: ordered_items_def split: if_splits)
  then have "size v < Suc (size_list (size_prod (\<lambda>_. 0) size) kvs)"
    by (induction kvs) auto
  then show "((fs, ind, sk, ea, lvl + 1, v), (fs, ind, sk, ea, lvl, JObj kvs))
               \<in> measure (\<lambda>(fs, ind, sk, ea, lvl, v). size v)"
    by simp
qed

definition json_dumps ::
  "('f \<Rightarrow> string) \<Rightarrow> 'f json \<Rightarrow> nat option \<Rightarrow> bool \<Rightarrow> bool \<Rightarrow> string" where
  \<comment> \<open>\<open>json.dumps(obj, indent=..., sort_keys=..., ensure_ascii=...)\<close>\<close>
  "json_dumps fs obj indent sort_keys ensure_ascii = iterencode fs indent sort_keys ensure_ascii 0 obj"


section \<open>The file-pair comparator\<close>

text \<open>
  The comparator calls the standard library for the files, the two UTF-8 decodings, the
  JSON parser, the path's name and suffix and the line diff.  These are parameters of the
  model: \<open>read_bytes\<close> is \<open>None\<close> where opening or reading raises \<open>IOError\<close> or
  \<open>OSError\<close>, \<open>decode_strict\<close> is \<open>None\<close> where the strict decoding raises
  \<open>UnicodeDecodeError\<close>, and \<open>json_loads\<close> is \<open>None\<close> where the parser raises one of the
  three exceptions \<open>_normalize_json\<close> catches.  A byte is a \<open>char\<close>.
\<close>

record ('p, 'f) stdlib =
  read_bytes :: "'p \<Rightarrow> string option"
  path_name :: "'p \<Rightarrow> string"
  path_suffix :: "'p \<Rightarrow> string"
  decode_strict :: "string \<Rightarrow> string option"
  decode_replace :: "string \<Rightarrow> string"
  json_loads :: "string \<Rightarrow> 'f json option"
  float_repr :: "'f \<Rightarrow> string"
  unified_diff :: "string list \<Rightarrow> string list \<Rightarrow> string \<Rightarrow> string \<Rightarrow> int \<Rightarrow> string list"

record FileDiff =
  path :: string
  kind :: string
  diff :: "string option"
  param_changes :: "(string \<times> string \<times> string) list option"
  diff_truncated :: bool
  changed_lines :: "changed_line list option"

definition FileDiff_default :: "string \<Rightarrow> string \<Rightarrow> FileDiff" where
  \<comment> \<open>the dataclass with its default field values\<close>
  "FileDiff_default p k = \<lparr>path = p, kind = k, diff = None, param_changes = None,
                            diff_truncated = False, changed_lines = None\<rparr>"

definition is_text :: "('p, 'f) stdlib \<Rightarrow> string \<Rightarrow> bool" where
  "is_text L data = (if CHR 0x00 \<in> set data then False else decode_strict L data \<noteq> None)"

definition decode_text :: "('p, 'f) stdlib \<Rightarrow> string \<Rightarrow> string" where
  "decode_text L data = decode_replace L data"

definition normalize_json :: "('p, 'f) stdlib \<Rightarrow> string \<Rightarrow> string option" where
  "normalize_json L content =
     (case json_loads L content of
        Some json_data \<Rightarrow> Some (json_dumps (float_repr L) json_data (Some 2) True False)
      | None \<Rightarrow> None)"

definition lower_char :: "char \<Rightarrow> char" where
  "lower_char c = (let n = code c in
     if (65 \<le> n \<and> n \<le> 90) \<or> (192 \<le> n \<and> n \<le> 222 \<and> n \<noteq> 215) then char_of (n + 32) else c)"

definition lower :: "string \<Rightarrow> string" where
  "lower s = map lower_char s"

definition str_truthy :: "string option \<Rightarrow> bool" where
  \<comment> \<open>the truth value of an optional string: neither \<open>None\<close> nor empty\<close>
  "str_truthy x = (case x of None \<Rightarrow> False | Some s \<Rightarrow> s \<noteq> [])"

definition compared_texts :: "('p, 'f) stdlib \<Rightarrow> 'p \<Rightarrow> string \<Rightarrow> string \<Rightarrow> string \<times> string \<times> bool" where
  \<comment> \<open>lines 66 to 79: the two texts that are compared, and the JSON mode\<close>
  "compared_texts L original_path orig_bytes mod_bytes =
     (let orig_content = decode_text L orig_bytes;
          mod_content = decode_text L mod_bytes
      in if lower (path_suffix L original_path) \<in> set [''.json'', ''.gui'', ''.cfg''] then
           (let normalized_orig = normalize_json L orig_content;
                normalized_mod = normalize_json L mod_content
            in if str_truthy normalized_orig \<and> str_truthy normalized_mod then
                 (case (normalized_orig, normalized_mod) of
                    (Some no, Some nm) \<Rightarrow> (no, nm, True)
                  | _ \<Rightarrow> (orig_content, mod_content, False))
               else (orig_content, mod_content, False))
         else (orig_content, mod_content, False))"

definition fallback_param_changes :: "string list \<Rightarrow> string list \<Rightarrow> (string \<times> string \<times> string) list" where
  \<comment> \<open>lines 108 to 112\<close>
  "fallback_param_changes orig_text mod_text =
     (let orig_params = parse_params orig_text;
          mod_params = parse_params mod_text
      in concat (map (\<lambda>(name, old_val).
           case map_of mod_params name of
             Some new_val \<Rightarrow> if new_val \<noteq> old_val then [(name, old_val, new_val)] else []
           | None \<Rightarrow> []) orig_params))"

definition or_None :: "'a list \<Rightarrow> 'a list option" where
  \<comment> \<open>\<open>xs or None\<close>\<close>
  "or_None xs = (if xs = [] then None else Some xs)"

definition compare_plain_text_files ::
  "('p, 'f) stdlib \<Rightarrow> 'p \<Rightarrow> 'p \<Rightarrow> int \<Rightarrow> bool \<Rightarrow> int \<Rightarrow> FileDiff list" where
  "compare_plain_text_files L original_path modded_path context include_diff max_text_bytes =
     (case read_bytes L original_path of
        None \<Rightarrow> []
      | Some orig_bytes \<Rightarrow>
          (case read_bytes L modded_path of
             None \<Rightarrow>
               (if is_text L orig_bytes then [FileDiff_default (path_name L original_path) ''removed'']
                else [])
           | Some mod_bytes \<Rightarrow>
               if orig_bytes = mod_bytes then []
               else if is_text L orig_bytes \<and> is_text L mod_bytes then
                 (let (orig_content, mod_content, is_json) = compared_texts L original_path orig_bytes mod_bytes;
                      orig_text = splitlines orig_content;
                      mod_text = splitlines mod_content
                  in if include_diff then
                       (if int (length orig_bytes) \<le> max_text_bytes \<and> int (length mod_bytes) \<le> max_text_bytes then
                          (let diff_lines = unified_diff L orig_text mod_text
                                              (''original/'' @ path_name L original_path)
                                              (''modded/'' @ path_name L modded_path) context;
                               diff_str = join [CHR 0x0A] diff_lines;
                               cls = extract_changed_lines diff_str;
                               pcs = (if cls \<noteq> [] then extract_param_changes_from_diff cls is_json else [])
                           in [\<lparr>path = path_name L original_path, kind = ''modified-text'',
                                 diff = Some diff_str, param_changes = or_None pcs,
                                 diff_truncated = False, changed_lines = Some cls\<rparr>])
                        else
                          [\<lparr>path = path_name L original_path, kind = ''modified-text'',
                             diff = None, param_changes = or_None (fallback_param_changes orig_text mod_text),
                             diff_truncated = True, changed_lines = None\<rparr>])
                     else
                       [\<lparr>path = path_name L original_path, kind = ''modified-text'',
                          diff = None, param_changes = None,
                          diff_truncated = False, changed_lines = None\<rparr>])
               else [FileDiff_default (path_name L original_path) ''modified-binary'']))"


section \<open>Notions used to state the properties\<close>

definition new_contents :: "changed_line list \<Rightarrow> string list" where
  \<comment> \<open>the new-side contents of the tuples, in order\<close>
  "new_contents cs = concat (map (\<lambda>(a, b, c, d). case b of Some x \<Rightarrow> [x] | None \<Rightarrow> []) cs)"

definition old_contents :: "changed_line list \<Rightarrow> string list" where
  \<comment> \<open>the old-side contents of the tuples, in order\<close>
  "old_contents cs = concat (map (\<lambda>(a, b, c, d). case a of Some x \<Rightarrow> [x] | None \<Rightarrow> []) cs)"

definition is_plus_line :: "string \<Rightarrow> bool" where
  \<comment> \<open>an addition line of a diff body: it starts with one plus sign, not with two\<close>
  "is_plus_line l = (startswith l ''+'' \<and> \<not> startswith l ''++'')"




definition pend_mset :: "ext_state \<Rightarrow> string multiset" where
  \<comment> \<open>the content of the removal that is held back, if one is\<close>
  "pend_mset st = (if pending st then (case last_minus_content st of Some c \<Rightarrow> {#c#} | None \<Rightarrow> {#})
                   else {#})"

definition has_numbers :: "ext_state \<Rightarrow> bool" where
  \<comment> \<open>the line counters are set: the last hunk header was valid\<close>
  "has_numbers st = (old_line_num st \<noteq> None)"

definition invalid_hunk_header :: "string \<Rightarrow> bool" where
  \<comment> \<open>a hunk header that fails to parse, or one of whose start lines is not in 1 to 100000000\<close>
  "invalid_hunk_header h =
     (startswith h ''@@'' \<and>
      (case re_search hunk_re h of
         None \<Rightarrow> True
       | Some m \<Rightarrow> py_int (grp m 1) \<le> 0 \<or> py_int (grp m 1) > 100000000
                   \<or> py_int (grp m 3) \<le> 0 \<or> py_int (grp m 3) > 100000000))"

definition is_skipped :: "string \<Rightarrow> bool" where
  \<comment> \<open>a file header line or an empty line\<close>
  "is_skipped l = (l = [] \<or> startswith l ''---'' \<or> startswith l ''+++'')"

definition is_context :: "string \<Rightarrow> bool" where
  \<comment> \<open>a context line starts with a space\<close>
  "is_context l = startswith l '' ''"

definition context_count :: "string list \<Rightarrow> int" where
  "context_count ls = int (length (filter is_context ls))"




fun last_entry :: "string list \<Rightarrow> string \<Rightarrow> string option" where
  \<comment> \<open>the value that the last line with an entry of this name gives it\<close>
  "last_entry [] n = None"
| "last_entry (l # ls) n =
     (case last_entry ls n of
        Some v \<Rightarrow> Some v
      | None \<Rightarrow> (case parse_params_line l of
                   Some (k, v) \<Rightarrow> if k = n then Some v else None
                 | None \<Rightarrow> None))"

definition test_lib :: "(string \<times> string) list \<Rightarrow> string list \<Rightarrow> (string, unit) stdlib" where
  \<comment> \<open>a library for the examples with script files: the files are listed, a path is its
      own name, every byte string decodes to itself, no text is JSON, and the line diff
      is the given one\<close>
  "test_lib files diff_lines =
     \<lparr>read_bytes = map_of files,
      path_name = (\<lambda>p. p),
      path_suffix = (\<lambda>p. dropWhile (\<lambda>c. c \<noteq> CHR ''.'') p),
      decode_strict = Some,
      decode_replace = (\<lambda>b. b),
      json_loads = (\<lambda>t. None),
      float_repr = (\<lambda>f. []),
      unified_diff = (\<lambda>a b fromfile tofile n. diff_lines)\<rparr>"

definition json_orig_text :: string where
  \<open>json_orig_text = ''{"tags": ["b", "a"], "hp": 100}''\<close>

definition json_mod_text :: string where
  \<open>json_mod_text = ''{"hp":150,"tags":["b","a"]}''\<close>

definition json_bad_text :: string where
  \<open>json_bad_text = ''{hp: 150}''\<close>

definition json_orig_lines :: "string list" where
  \<open>json_orig_lines = [''{'', ''  "hp": 100,'', ''  "tags": ['', ''    "b",'', ''    "a"'', ''  ]'', ''}'']\<close>

definition json_mod_lines :: "string list" where
  \<open>json_mod_lines = [''{'', ''  "hp": 150,'', ''  "tags": ['', ''    "b",'', ''    "a"'', ''  ]'', ''}'']\<close>

definition json_pair_diff :: "string list" where
  \<comment> \<open>the line diff of the two normalised texts, with three lines of context\<close>
  \<open>json_pair_diff =
     [''--- original/A.JSON\<newline>'', ''+++ modded/b.json\<newline>'', ''@@ -1,5 +1,5 @@\<newline>'',
      '' {'', ''-  "hp": 100,'', ''+  "hp": 150,'', ''   "tags": ['', ''     "b",'', ''     "a"'']\<close>

definition plain_pair_diff :: "string list" where
  \<comment> \<open>the line diff of the first text as it is and the text that is not JSON\<close>
  \<open>plain_pair_diff =
     [''--- original/A.JSON\<newline>'', ''+++ modded/c.json\<newline>'', ''@@ -1 +1 @@\<newline>'',
      ''-{"tags": ["b", "a"], "hp": 100}'', ''+{hp: 150}'']\<close>

definition json_lib :: "(string, unit) stdlib" where
  \<comment> \<open>a library for the JSON example: three files, the parser on their three texts, and
      the line diff on the two pairs of line lists that the example compares\<close>
  "json_lib =
     \<lparr>read_bytes = map_of [(''A.JSON'', json_orig_text), (''b.json'', json_mod_text),
                           (''c.json'', json_bad_text)],
      path_name = (\<lambda>p. p),
      path_suffix = (\<lambda>p. dropWhile (\<lambda>c. c \<noteq> CHR ''.'') p),
      decode_strict = Some,
      decode_replace = (\<lambda>b. b),
      json_loads = map_of
        [(json_orig_text, JObj [(''tags'', JArr [JStr ''b'', JStr ''a'']), (''hp'', JInt 100)]),
         (json_mod_text, JObj [(''hp'', JInt 150), (''tags'', JArr [JStr ''b'', JStr ''a''])])],
      float_repr = (\<lambda>f. ''0.0''),
      unified_diff = (\<lambda>a b fromfile tofile n.
         if a = json_orig_lines \<and> b = json_mod_lines then json_pair_diff
         else if a = [json_orig_text] \<and> b = [json_bad_text] then plain_pair_diff
         else [])\<rparr>"

definition health_old :: string where
  "health_old = ''Param('' @ [dquote] @ ''Health'' @ [dquote] @ '', 100);''"

definition health_new :: string where
  "health_new = ''Param('' @ [dquote] @ ''Health'' @ [dquote] @ '', 150);''"


section \<open>Basic facts\<close>

lemma startswith_Nil [simp]: "startswith s []"
  by (simp add: startswith_def)

lemma startswith_Cons [simp]:
  "startswith s (c # p) = (case s of [] \<Rightarrow> False | x # xs \<Rightarrow> x = c \<and> startswith xs p)"
  by (cases s) (auto simp: startswith_def)

lemma new_contents_append [simp]: "new_contents (xs @ ys) = new_contents xs @ new_contents ys"
  by (simp add: new_contents_def)

lemma old_contents_append [simp]: "old_contents (xs @ ys) = old_contents xs @ old_contents ys"
  by (simp add: old_contents_def)

lemma new_contents_single [simp]:
  "new_contents [(a, b, c, d)] = (case b of Some x \<Rightarrow> [x] | None \<Rightarrow> [])"
  by (simp add: new_contents_def)

lemma old_contents_single [simp]:
  "old_contents [(a, b, c, d)] = (case a of Some x \<Rightarrow> [x] | None \<Rightarrow> [])"
  by (simp add: old_contents_def)

lemma contents_Nil [simp]: "new_contents [] = []" "old_contents [] = []"
  by (simp_all add: new_contents_def old_contents_def)


section \<open>Coverage of the changed lines\<close>





lemma init_state_empty [simp]: "changes init_state = []" "pend_mset init_state = {#}"
  by (simp_all add: init_state_def pend_mset_def pending_def)


lemma has_numbers_init [simp]: "\<not> has_numbers init_state"
  by (simp add: has_numbers_def init_state_def)






















section \<open>Runs of removals\<close>

text \<open>
  C2.  The claim says that, in a run of removals followed by additions, the last removal
  is paired with the first addition and each earlier removal of the run is reported as an
  unpaired removal.  The extractor does the first and not the second: in this hunk the
  removals of \<open>a\<close> and \<open>b\<close> come before the additions of \<open>c\<close> and \<open>d\<close> and the context
  line \<open>e\<close>; \<open>b\<close> is paired with \<open>c\<close>, and \<open>a\<close> is in no tuple.  The text is the diff of the
  files \<open>a, b, e\<close> and \<open>c, d, e\<close> as the comparator builds it: the header lines end with a
  newline of their own and all lines are joined with newlines.
\<close>

theorem removal_run_drops_earlier_removals:
  "extract_changed_lines
     ''--- original/f.scr\<newline>\<newline>+++ modded/f.scr\<newline>\<newline>@@ -1,3 +1,3 @@\<newline>\<newline>-a\<newline>-b\<newline>+c\<newline>+d\<newline> e''
     = [(Some ''b'', Some ''c'', Some 2, Some 1), (None, Some ''d'', None, Some 2)]"
  by code_simp



section \<open>Hunks with an invalid header\<close>

lemma invalid_hunk_starts: "invalid_hunk_header h \<Longrightarrow> hunk_starts h = (None, None)"
  by (auto simp: invalid_hunk_header_def hunk_starts_def Let_def split: option.splits)

lemma step_invalid_header:
  assumes "invalid_hunk_header h"
  shows "step st h = init_state\<lparr>changes := changes st\<rparr>"
proof -
  have "startswith h ''@@''" using assms by (simp add: invalid_hunk_header_def del: startswith_Cons)
  then show ?thesis
    using invalid_hunk_starts[OF assms]
    by (simp add: step_def clear_pending_def init_state_def del: startswith_Cons)
qed

lemma step_null_counters:
  assumes "\<not> startswith l ''@@''"
  shows "step (init_state\<lparr>changes := cs\<rparr>) l
           = init_state\<lparr>changes := cs @ (if is_plus_line l then [(None, Some (drop 1 l), None, None)] else [])\<rparr>"
  using assms
  by (auto simp: step_def init_state_def is_plus_line_def incr_def emit_def pending_def Let_def
           split: list.splits)

lemma foldl_null_counters:
  assumes "\<forall>l \<in> set body. \<not> startswith l ''@@''"
  shows "foldl step (init_state\<lparr>changes := cs\<rparr>) body
           = init_state\<lparr>changes := cs @ map (\<lambda>l. (None, Some (drop 1 l), None, None))
                                           (filter is_plus_line body)\<rparr>"
  using assms
proof (induction body arbitrary: cs)
  case Nil
  show ?case by simp
next
  case (Cons l body)
  have nl: "\<not> startswith l ''@@''" and rest: "\<forall>l \<in> set body. \<not> startswith l ''@@''"
    using Cons.prems by simp_all
  show ?case
    using Cons.IH[OF rest] by (simp add: step_null_counters[OF nl])
qed

lemma pending_changes [simp]: "pending (st\<lparr>changes := cs\<rparr>) = pending st"
  by (simp add: pending_def)

lemma step_changes_prefix:
  "step (st\<lparr>changes := cs @ changes st\<rparr>) l = (step st l)\<lparr>changes := cs @ changes (step st l)\<rparr>"
  by (simp add: step_def emit_def clear_pending_def Let_def del: startswith_Cons
           split: option.splits)

lemma foldl_changes_prefix:
  "foldl step (st\<lparr>changes := cs @ changes st\<rparr>) ls
     = (foldl step st ls)\<lparr>changes := cs @ changes (foldl step st ls)\<rparr>"
proof (induction ls arbitrary: st)
  case Nil
  show ?case by simp
next
  case (Cons l ls)
  show ?case using Cons.IH[of "step st l"] by (simp add: step_changes_prefix)
qed

lemma flush_changes_prefix: "flush (st\<lparr>changes := cs @ changes st\<rparr>) = cs @ flush st"
  by (simp add: flush_def)

lemma extract_after_null_counters:
  "flush (foldl step (init_state\<lparr>changes := cs\<rparr>) ls) = cs @ extract_lines ls"
proof -
  have "init_state\<lparr>changes := cs\<rparr> = init_state\<lparr>changes := cs @ changes init_state\<rparr>"
    by (simp add: init_state_def)
  then show ?thesis
    by (simp only: foldl_changes_prefix flush_changes_prefix extract_lines_def)
qed

text \<open>
  C4 (as amended).  When a hunk header fails to parse, or has a start line that is not in
  the range 1 to 100,000,000, the extractor sets both line counters to null and goes on
  with the remaining lines of the hunk: every later line of the hunk that starts with one
  plus sign is reported as an addition with null line numbers, in order, and nothing else
  is reported for the hunk; its removal lines are not recorded.  Every diff text with such
  a header is of this form: \<open>pre\<close> are the lines before the header, \<open>h\<close> is the header,
  \<open>body\<close> the lines of its hunk, none of which is a header, and \<open>rest\<close> whatever follows,
  which is extracted as it would be at the start of a text.
\<close>

theorem invalid_hunk_reports_additions_only:
  assumes "invalid_hunk_header h" and "\<forall>l \<in> set body. \<not> startswith l ''@@''"
  shows "old_line_num (foldl step init_state (pre @ h # body)) = None \<and>
         new_line_num (foldl step init_state (pre @ h # body)) = None \<and>
         extract_lines (pre @ h # body @ rest) =
           changes (foldl step init_state pre)
             @ map (\<lambda>l. (None, Some (drop 1 l), None, None)) (filter is_plus_line body)
             @ extract_lines rest"
proof -
  let ?cs = "changes (foldl step init_state pre)"
  let ?adds = "map (\<lambda>l. (None, Some (drop 1 l), None, None)) (filter is_plus_line body)"
  have b: "foldl step init_state (pre @ h # body) = init_state\<lparr>changes := ?cs @ ?adds\<rparr>"
    by (simp add: step_invalid_header[OF assms(1)] foldl_null_counters[OF assms(2)])
  have "foldl step init_state (pre @ h # body @ rest)
          = foldl step (foldl step init_state (pre @ h # body)) rest"
    by simp
  then have "extract_lines (pre @ h # body @ rest)
          = flush (foldl step (init_state\<lparr>changes := ?cs @ ?adds\<rparr>) rest)"
    unfolding extract_lines_def b by simp
  then have "extract_lines (pre @ h # body @ rest) = (?cs @ ?adds) @ extract_lines rest"
    by (simp only: extract_after_null_counters)
  then show ?thesis using b by (simp add: init_state_def)
qed

lemma zero_start_header_invalid: "invalid_hunk_header ''@@ -0,0 +1 @@''"
  by code_simp

lemma unparsed_header_invalid: "invalid_hunk_header ''@@ -x +y @@''"
  by code_simp

lemma second_hunk_result:
  "extract_lines [''@@ -3 +4 @@'', ''-x'', ''+y''] = [(Some ''x'', Some ''y'', Some 3, Some 4)]"
  by code_simp

theorem invalid_hunk_reports_additions_only_witness:
  "invalid_hunk_header ''@@ -0,0 +1 @@'' \<and>
   \<not> startswith ''+b'' ''@@'' \<and> \<not> startswith ''-c'' ''@@'' \<and>
   extract_lines ([] @ ''@@ -0,0 +1 @@'' # [''+b'', ''-c''] @ [''@@ -3 +4 @@'', ''-x'', ''+y''])
     = [(None, Some ''b'', None, None), (Some ''x'', Some ''y'', Some 3, Some 4)]"
proof -
  have b: "\<forall>l \<in> set [''+b'', ''-c'']. \<not> startswith l ''@@''"
    by simp
  show ?thesis
    using invalid_hunk_reports_additions_only[OF zero_start_header_invalid b, of "[]"
            "[''@@ -3 +4 @@'', ''-x'', ''+y'']"]
          zero_start_header_invalid
    by (simp add: is_plus_line_def second_hunk_result)
qed

lemma all_removed_example_result:
  "extract_changed_lines ''@@ -1,2 +0,0 @@\<newline>-a\<newline>-b'' = []"
  by code_simp

text \<open>
  C4 as it is stated fails for removals.  When every line of a two-line file is removed, the
  hunk header has the new start 0, which is outside the accepted range; the two removals
  are not reported with null line numbers, they are not reported at all.
\<close>

theorem invalid_hunk_counterexample:
  "invalid_hunk_header ''@@ -1,2 +0,0 @@'' \<and>
   ''a'' \<notin> set (old_contents (extract_changed_lines ''@@ -1,2 +0,0 @@\<newline>-a\<newline>-b'')) \<and>
   ''b'' \<notin> set (old_contents (extract_changed_lines ''@@ -1,2 +0,0 @@\<newline>-a\<newline>-b''))"
proof -
  have "invalid_hunk_header ''@@ -1,2 +0,0 @@''" by code_simp
  then show ?thesis by (simp add: all_removed_example_result)
qed



section \<open>The results of the comparator\<close>

lemma compare_unreadable:
  "read_bytes L original_path = None \<Longrightarrow>
   compare_plain_text_files L original_path modded_path context include_diff max_text_bytes = []"
  by (simp add: compare_plain_text_files_def)

lemma compare_removed:
  "read_bytes L original_path = Some ob \<Longrightarrow> read_bytes L modded_path = None \<Longrightarrow>
   compare_plain_text_files L original_path modded_path context include_diff max_text_bytes
     = (if is_text L ob then [FileDiff_default (path_name L original_path) ''removed''] else [])"
  by (simp add: compare_plain_text_files_def)

lemma compare_identical:
  "read_bytes L original_path = Some ob \<Longrightarrow> read_bytes L modded_path = Some ob \<Longrightarrow>
   compare_plain_text_files L original_path modded_path context include_diff max_text_bytes = []"
  by (simp add: compare_plain_text_files_def)

lemma compare_binary:
  "read_bytes L original_path = Some ob \<Longrightarrow> read_bytes L modded_path = Some mb \<Longrightarrow> ob \<noteq> mb \<Longrightarrow>
   \<not> (is_text L ob \<and> is_text L mb) \<Longrightarrow>
   compare_plain_text_files L original_path modded_path context include_diff max_text_bytes
     = [FileDiff_default (path_name L original_path) ''modified-binary'']"
  by (auto simp: compare_plain_text_files_def)

lemma compare_nodiff:
  "read_bytes L original_path = Some ob \<Longrightarrow> read_bytes L modded_path = Some mb \<Longrightarrow> ob \<noteq> mb \<Longrightarrow>
   is_text L ob \<Longrightarrow> is_text L mb \<Longrightarrow> \<not> include_diff \<Longrightarrow>
   compare_plain_text_files L original_path modded_path context include_diff max_text_bytes
     = [\<lparr>path = path_name L original_path, kind = ''modified-text'', diff = None,
         param_changes = None, diff_truncated = False, changed_lines = None\<rparr>]"
  by (simp add: compare_plain_text_files_def Let_def case_prod_beta)

lemma compare_truncated:
  "read_bytes L original_path = Some ob \<Longrightarrow> read_bytes L modded_path = Some mb \<Longrightarrow> ob \<noteq> mb \<Longrightarrow>
   is_text L ob \<Longrightarrow> is_text L mb \<Longrightarrow> include_diff \<Longrightarrow>
   \<not> (int (length ob) \<le> max_text_bytes \<and> int (length mb) \<le> max_text_bytes) \<Longrightarrow>
   compare_plain_text_files L original_path modded_path context include_diff max_text_bytes
     = [\<lparr>path = path_name L original_path, kind = ''modified-text'', diff = None,
         param_changes = or_None (fallback_param_changes
            (splitlines (fst (compared_texts L original_path ob mb)))
            (splitlines (fst (snd (compared_texts L original_path ob mb))))),
         diff_truncated = True, changed_lines = None\<rparr>]"
  by (auto simp: compare_plain_text_files_def Let_def case_prod_beta)

lemma compare_full:
  "read_bytes L original_path = Some ob \<Longrightarrow> read_bytes L modded_path = Some mb \<Longrightarrow> ob \<noteq> mb \<Longrightarrow>
   is_text L ob \<Longrightarrow> is_text L mb \<Longrightarrow> include_diff \<Longrightarrow>
   int (length ob) \<le> max_text_bytes \<Longrightarrow> int (length mb) \<le> max_text_bytes \<Longrightarrow>
   d = join [CHR 0x0A] (unified_diff L
         (splitlines (fst (compared_texts L original_path ob mb)))
         (splitlines (fst (snd (compared_texts L original_path ob mb))))
         (''original/'' @ path_name L original_path) (''modded/'' @ path_name L modded_path) context) \<Longrightarrow>
   compare_plain_text_files L original_path modded_path context include_diff max_text_bytes
     = [\<lparr>path = path_name L original_path, kind = ''modified-text'', diff = Some d,
         param_changes = or_None (if extract_changed_lines d \<noteq> []
            then extract_param_changes_from_diff (extract_changed_lines d)
                   (snd (snd (compared_texts L original_path ob mb)))
            else []),
         diff_truncated = False, changed_lines = Some (extract_changed_lines d)\<rparr>]"
  by (simp add: compare_plain_text_files_def Let_def case_prod_beta)

lemma compare_cases:
  assumes "r \<in> set (compare_plain_text_files L original_path modded_path context include_diff max_text_bytes)"
  obtains
    (removed) "r = FileDiff_default (path_name L original_path) ''removed''"
  | (binary) "r = FileDiff_default (path_name L original_path) ''modified-binary''"
  | (full) cls pcs d where
      "r = \<lparr>path = path_name L original_path, kind = ''modified-text'', diff = Some d,
            param_changes = or_None pcs, diff_truncated = False, changed_lines = Some cls\<rparr>"
  | (truncated) ob mb where
      "read_bytes L original_path = Some ob" "read_bytes L modded_path = Some mb"
      "r = \<lparr>path = path_name L original_path, kind = ''modified-text'', diff = None,
            param_changes = or_None (fallback_param_changes
               (splitlines (fst (compared_texts L original_path ob mb)))
               (splitlines (fst (snd (compared_texts L original_path ob mb))))),
            diff_truncated = True, changed_lines = None\<rparr>"
  | (nodiff) "r = \<lparr>path = path_name L original_path, kind = ''modified-text'', diff = None,
            param_changes = None, diff_truncated = False, changed_lines = None\<rparr>"
proof (cases "read_bytes L original_path")
  case None
  then show ?thesis using assms compare_unreadable[OF None] by simp
next
  case (Some ob)
  note ob = this
  show ?thesis
  proof (cases "read_bytes L modded_path")
    case None
    then show ?thesis using assms compare_removed[OF ob None] removed by (simp split: if_splits)
  next
    case (Some mb)
    note mb = this
    consider (same) "ob = mb"
      | (bin) "ob \<noteq> mb" "\<not> (is_text L ob \<and> is_text L mb)"
      | (nd) "ob \<noteq> mb" "is_text L ob" "is_text L mb" "\<not> include_diff"
      | (tr) "ob \<noteq> mb" "is_text L ob" "is_text L mb" "include_diff"
             "\<not> (int (length ob) \<le> max_text_bytes \<and> int (length mb) \<le> max_text_bytes)"
      | (fu) "ob \<noteq> mb" "is_text L ob" "is_text L mb" "include_diff"
             "int (length ob) \<le> max_text_bytes" "int (length mb) \<le> max_text_bytes"
      by blast
    then show ?thesis
    proof cases
      case same
      then show ?thesis using assms compare_identical[OF ob] mb by simp
    next
      case bin
      then show ?thesis using assms compare_binary[OF ob mb] binary by simp
    next
      case nd
      then show ?thesis using assms compare_nodiff[OF ob mb] nodiff by simp
    next
      case tr
      then show ?thesis using assms compare_truncated[OF ob mb] truncated[OF ob mb] by simp
    next
      case fu
      then show ?thesis using assms compare_full[OF ob mb fu refl] full by simp
    qed
  qed
qed



lemma example_removed:
  "compare_plain_text_files (test_lib [(''o.scr'', ''Speed(10);'')] []) ''o.scr'' ''m.scr'' 3 True 1000000
     = [FileDiff_default ''o.scr'' ''removed'']"
  by (simp add: compare_plain_text_files_def test_lib_def is_text_def)

lemma example_truncated:
  "compare_plain_text_files (test_lib [(''o.scr'', ''Speed(10);''), (''m.scr'', ''Speed(20);'')] [])
      ''o.scr'' ''m.scr'' 3 True 5
     = [\<lparr>path = ''o.scr'', kind = ''modified-text'', diff = None,
         param_changes = Some [(''Speed'', ''10'', ''20'')],
         diff_truncated = True, changed_lines = None\<rparr>]"
  by code_simp

text \<open>
  C8.  The comparator never produces a result of kind \<open>added\<close>: the kind of every result
  is \<open>removed\<close>, \<open>modified-binary\<close> or \<open>modified-text\<close>.
\<close>

theorem kind_never_added:
  assumes "r \<in> set (compare_plain_text_files L original_path modded_path context include_diff max_text_bytes)"
  shows "kind r \<in> {''removed'', ''modified-binary'', ''modified-text''} \<and> kind r \<noteq> ''added''"
  using assms by (rule compare_cases) (simp_all add: FileDiff_default_def)

theorem kind_never_added_witness:
  "FileDiff_default ''o.scr'' ''removed''
     \<in> set (compare_plain_text_files (test_lib [(''o.scr'', ''Speed(10);'')] []) ''o.scr'' ''m.scr'' 3 True 1000000) \<and>
   kind (FileDiff_default ''o.scr'' ''removed'') \<in> {''removed'', ''modified-binary'', ''modified-text''} \<and>
   kind (FileDiff_default ''o.scr'' ''removed'') \<noteq> ''added''"
proof -
  have m: "FileDiff_default ''o.scr'' ''removed''
     \<in> set (compare_plain_text_files (test_lib [(''o.scr'', ''Speed(10);'')] []) ''o.scr'' ''m.scr'' 3 True 1000000)"
    by (simp add: example_removed)
  show ?thesis using m kind_never_added[OF m] by blast
qed

lemma or_None_not_empty: "or_None xs \<noteq> Some []"
  by (simp add: or_None_def)

text \<open>
  C10.  The parameter changes of a \<open>modified-text\<close> result are never the empty sequence:
  the field is null when no parameter change was found, and a non-empty list otherwise.
\<close>

theorem param_changes_never_empty:
  assumes "r \<in> set (compare_plain_text_files L original_path modded_path context include_diff max_text_bytes)"
      and "kind r = ''modified-text''"
  shows "param_changes r \<noteq> Some [] \<and>
         (param_changes r = None \<or> (\<exists>c cs. param_changes r = Some (c # cs)))"
proof -
  have "param_changes r \<noteq> Some []"
    using assms(1) by (rule compare_cases) (simp_all add: FileDiff_default_def or_None_not_empty)
  then show ?thesis
    by (cases "param_changes r") (auto simp: neq_Nil_conv)
qed

theorem param_changes_never_empty_witness:
  "(\<lparr>path = ''o.scr'', kind = ''modified-text'', diff = None,
     param_changes = Some [(''Speed'', ''10'', ''20'')], diff_truncated = True, changed_lines = None\<rparr>
     \<in> set (compare_plain_text_files
              (test_lib [(''o.scr'', ''Speed(10);''), (''m.scr'', ''Speed(20);'')] [])
              ''o.scr'' ''m.scr'' 3 True 5)) \<and>
   Some [(''Speed'', ''10'', ''20'')] \<noteq> Some ([] :: (string \<times> string \<times> string) list)"
proof -
  let ?r = "\<lparr>path = ''o.scr'', kind = ''modified-text'', diff = None,
     param_changes = Some [(''Speed'', ''10'', ''20'')], diff_truncated = True, changed_lines = None\<rparr>"
  have m: "?r \<in> set (compare_plain_text_files
              (test_lib [(''o.scr'', ''Speed(10);''), (''m.scr'', ''Speed(20);'')] [])
              ''o.scr'' ''m.scr'' 3 True 5)"
    by (simp add: example_truncated)
  have k: "kind ?r = ''modified-text''" by simp
  show ?thesis using m param_changes_never_empty[OF m k] by simp
qed

text \<open>
  C3 (as amended).  When the original file is unreadable the comparator returns the empty
  result list, and no error reaches the caller.  The byte limit is not validated: with a
  limit of zero or less, two readable text files that differ, compared with their diff
  requested, give one \<open>modified-text\<close> result that is marked as truncated.
\<close>

theorem unreadable_original_returns_empty:
  "(read_bytes L original_path = None \<longrightarrow>
      compare_plain_text_files L original_path modded_path ctx include_diff max_text_bytes = []) \<and>
   (max_text_bytes \<le> 0 \<and> read_bytes L original_path = Some ob \<and> read_bytes L modded_path = Some mb \<and>
    ob \<noteq> mb \<and> is_text L ob \<and> is_text L mb \<longrightarrow>
      compare_plain_text_files L original_path modded_path ctx True max_text_bytes
        = [\<lparr>path = path_name L original_path, kind = ''modified-text'', diff = None,
            param_changes = or_None (fallback_param_changes
               (splitlines (fst (compared_texts L original_path ob mb)))
               (splitlines (fst (snd (compared_texts L original_path ob mb))))),
            diff_truncated = True, changed_lines = None\<rparr>])"
proof (intro conjI impI)
  assume "read_bytes L original_path = None"
  then show "compare_plain_text_files L original_path modded_path ctx include_diff max_text_bytes = []"
    by (rule compare_unreadable)
next
  assume a: "max_text_bytes \<le> 0 \<and> read_bytes L original_path = Some ob \<and>
             read_bytes L modded_path = Some mb \<and> ob \<noteq> mb \<and> is_text L ob \<and> is_text L mb"
  then have "ob \<noteq> [] \<or> mb \<noteq> []" by auto
  then have "0 < int (length ob) \<or> 0 < int (length mb)" by auto
  then have big: "\<not> (int (length ob) \<le> max_text_bytes \<and> int (length mb) \<le> max_text_bytes)"
    using a by linarith
  show "compare_plain_text_files L original_path modded_path ctx True max_text_bytes
        = [\<lparr>path = path_name L original_path, kind = ''modified-text'', diff = None,
            param_changes = or_None (fallback_param_changes
               (splitlines (fst (compared_texts L original_path ob mb)))
               (splitlines (fst (snd (compared_texts L original_path ob mb))))),
            diff_truncated = True, changed_lines = None\<rparr>]"
    using a big by (intro compare_truncated) simp_all
qed

lemma example_zero_limit:
  "compare_plain_text_files (test_lib [(''o.scr'', ''Speed(10);''), (''m.scr'', ''Speed(20);'')] [])
      ''o.scr'' ''m.scr'' 3 True 0
     = [\<lparr>path = ''o.scr'', kind = ''modified-text'', diff = None,
         param_changes = Some [(''Speed'', ''10'', ''20'')],
         diff_truncated = True, changed_lines = None\<rparr>]"
  by code_simp

theorem unreadable_original_returns_empty_witness:
  "read_bytes (test_lib [] []) ''o.scr'' = None \<and>
   compare_plain_text_files (test_lib [] []) ''o.scr'' ''m.scr'' 3 True 1000000 = [] \<and>
   (0::int) \<le> 0 \<and>
   read_bytes (test_lib [(''o.scr'', ''Speed(10);''), (''m.scr'', ''Speed(20);'')] []) ''o.scr'' = Some ''Speed(10);'' \<and>
   read_bytes (test_lib [(''o.scr'', ''Speed(10);''), (''m.scr'', ''Speed(20);'')] []) ''m.scr'' = Some ''Speed(20);'' \<and>
   is_text (test_lib [(''o.scr'', ''Speed(10);''), (''m.scr'', ''Speed(20);'')] []) ''Speed(10);'' \<and>
   is_text (test_lib [(''o.scr'', ''Speed(10);''), (''m.scr'', ''Speed(20);'')] []) ''Speed(20);'' \<and>
   map diff_truncated (compare_plain_text_files
      (test_lib [(''o.scr'', ''Speed(10);''), (''m.scr'', ''Speed(20);'')] []) ''o.scr'' ''m.scr'' 3 True 0) = [True]"
proof -
  let ?L = "test_lib [(''o.scr'', ''Speed(10);''), (''m.scr'', ''Speed(20);'')] []"
  have r0: "read_bytes (test_lib [] []) ''o.scr'' = None" by (simp add: test_lib_def)
  have r1: "read_bytes ?L ''o.scr'' = Some ''Speed(10);''" by (simp add: test_lib_def)
  have r2: "read_bytes ?L ''m.scr'' = Some ''Speed(20);''" by (simp add: test_lib_def)
  have t1: "is_text ?L ''Speed(10);''" by (simp add: test_lib_def is_text_def)
  have t2: "is_text ?L ''Speed(20);''" by (simp add: test_lib_def is_text_def)
  have d: "''Speed(10);'' \<noteq> ''Speed(20);''" by simp
  show ?thesis
    using unreadable_original_returns_empty[where L = "test_lib [] []" and original_path = "''o.scr''"
            and modded_path = "''m.scr''" and ctx = 3 and include_diff = True
            and max_text_bytes = 1000000]
          unreadable_original_returns_empty[where L = ?L and original_path = "''o.scr''"
            and modded_path = "''m.scr''" and ctx = 3 and max_text_bytes = 0
            and ob = "''Speed(10);''" and mb = "''Speed(20);''"]
          r0 r1 r2 t1 t2 d
    by simp
qed

text \<open>
  C3 as it is stated fails: with no readable original file the comparator returns, and what
  it returns is the empty list.
\<close>

theorem unreadable_original_counterexample:
  "read_bytes (test_lib [(''m.scr'', ''Speed(20);'')] []) ''o.scr'' = None \<and>
   compare_plain_text_files (test_lib [(''m.scr'', ''Speed(20);'')] []) ''o.scr'' ''m.scr'' 3 True 1000000 = []"
  by (simp add: compare_plain_text_files_def test_lib_def)



section \<open>The whole-file fallback\<close>

lemma map_of_dict_set: "map_of (dict_set d k v) = (map_of d)(k \<mapsto> v)"
  by (induction d k v rule: dict_set.induct) (auto simp: fun_eq_iff)

lemma fst_set_dict_set: "fst ` set (dict_set d k v) = insert k (fst ` set d)"
  by (induction d k v rule: dict_set.induct) auto

lemma distinct_dict_set: "distinct (map fst d) \<Longrightarrow> distinct (map fst (dict_set d k v))"
proof (induction d k v rule: dict_set.induct)
  case (1 k v)
  show ?case by simp
next
  case (2 k' v' d k v)
  then show ?case using fst_set_dict_set[of d k v] by auto
qed

lemma parse_params_fold:
  "map_of (foldl (\<lambda>result line. case parse_params_line line of
                                   Some (name, val) \<Rightarrow> dict_set result name val
                                 | None \<Rightarrow> result) d lines) n
     = (case last_entry lines n of Some v \<Rightarrow> Some v | None \<Rightarrow> map_of d n)"
proof (induction lines arbitrary: d)
  case Nil
  show ?case by simp
next
  case (Cons l ls)
  show ?case
    by (simp add: Cons.IH map_of_dict_set split: option.splits prod.splits)
qed

lemma parse_params_fold_distinct:
  "distinct (map fst d) \<Longrightarrow>
   distinct (map fst (foldl (\<lambda>result line. case parse_params_line line of
                                   Some (name, val) \<Rightarrow> dict_set result name val
                                 | None \<Rightarrow> result) d lines))"
proof (induction lines arbitrary: d)
  case Nil
  then show ?case by simp
next
  case (Cons l ls)
  show ?case
  proof (cases "parse_params_line l")
    case None
    then show ?thesis using Cons by simp
  next
    case (Some e)
    obtain k v where e: "e = (k, v)" by (cases e)
    have "distinct (map fst (dict_set d k v))" using Cons.prems by (rule distinct_dict_set)
    from Cons.IH[OF this] show ?thesis using Some e by simp
  qed
qed

lemma map_of_parse_params: "map_of (parse_params lines) n = last_entry lines n"
  unfolding parse_params_def by (simp add: parse_params_fold split: option.splits)

lemma distinct_parse_params: "distinct (map fst (parse_params lines))"
  unfolding parse_params_def by (rule parse_params_fold_distinct) simp

lemma parse_params_member: "(n, v) \<in> set (parse_params lines) \<longleftrightarrow> last_entry lines n = Some v"
  using map_of_eq_Some_iff[OF distinct_parse_params, of lines n v] map_of_parse_params[of lines n]
  by simp

lemma fallback_member:
  "(n, ov, nv) \<in> set (fallback_param_changes a b) \<longleftrightarrow>
     last_entry a n = Some ov \<and> last_entry b n = Some nv \<and> ov \<noteq> nv"
proof -
  have "(n, ov, nv) \<in> set (fallback_param_changes a b) \<longleftrightarrow>
          (n, ov) \<in> set (parse_params a) \<and> map_of (parse_params b) n = Some nv \<and> nv \<noteq> ov"
    by (auto simp: fallback_param_changes_def Let_def split: option.splits if_splits)
  then show ?thesis
    by (auto simp: parse_params_member map_of_parse_params)
qed

text \<open>
  C5.  A result of the comparator that is marked as truncated has no diff and no changed
  lines.  Its parameter changes are those of the whole-file fallback on the two compared
  texts, null when there are none: there is a triple \<open>(name, old, new)\<close> exactly for the
  names to which both files give a value, the last line with the name deciding in each
  file, and the two values differ.  A name that only one file has gives no triple, so
  additions and removals are not detected.
\<close>

theorem truncated_result_uses_fallback:
  assumes "r \<in> set (compare_plain_text_files L original_path modded_path ctx include_diff max_text_bytes)"
      and "diff_truncated r"
  shows "diff r = None \<and> changed_lines r = None \<and>
         (\<exists>ob mb a b.
            read_bytes L original_path = Some ob \<and> read_bytes L modded_path = Some mb \<and>
            a = splitlines (fst (compared_texts L original_path ob mb)) \<and>
            b = splitlines (fst (snd (compared_texts L original_path ob mb))) \<and>
            param_changes r = or_None (fallback_param_changes a b) \<and>
            (\<forall>n ov nv. (n, ov, nv) \<in> set (fallback_param_changes a b) \<longleftrightarrow>
                 last_entry a n = Some ov \<and> last_entry b n = Some nv \<and> ov \<noteq> nv))"
  using assms(1)
proof (cases rule: compare_cases)
  case removed
  then show ?thesis using assms(2) by (simp add: FileDiff_default_def)
next
  case binary
  then show ?thesis using assms(2) by (simp add: FileDiff_default_def)
next
  case (full cls pcs d)
  then show ?thesis using assms(2) by simp
next
  case (truncated ob mb)
  then show ?thesis by (simp add: fallback_member)
next
  case nodiff
  then show ?thesis using assms(2) by simp
qed

lemma example_two_params:
  "compare_plain_text_files
      (test_lib [(''o.scr'', ''Speed(10);\<newline>Jump(1);\<newline>Speed(15);''),
                 (''m.scr'', ''Speed(20);\<newline>Run(3);'')] [])
      ''o.scr'' ''m.scr'' 3 True 5
     = [\<lparr>path = ''o.scr'', kind = ''modified-text'', diff = None,
         param_changes = Some [(''Speed'', ''15'', ''20'')],
         diff_truncated = True, changed_lines = None\<rparr>]"
  by code_simp

theorem truncated_result_uses_fallback_witness:
  "compare_plain_text_files
      (test_lib [(''o.scr'', ''Speed(10);\<newline>Jump(1);\<newline>Speed(15);''),
                 (''m.scr'', ''Speed(20);\<newline>Run(3);'')] [])
      ''o.scr'' ''m.scr'' 3 True 5
     = [\<lparr>path = ''o.scr'', kind = ''modified-text'', diff = None,
         param_changes = Some [(''Speed'', ''15'', ''20'')],
         diff_truncated = True, changed_lines = None\<rparr>] \<and>
   diff \<lparr>path = ''o.scr'', kind = ''modified-text'', diff = None,
         param_changes = Some [(''Speed'', ''15'', ''20'')],
         diff_truncated = True, changed_lines = None\<rparr> = None"
proof -
  let ?r = "\<lparr>path = ''o.scr'', kind = ''modified-text'', diff = None,
         param_changes = Some [(''Speed'', ''15'', ''20'')],
         diff_truncated = True, changed_lines = None\<rparr>"
  let ?L = "test_lib [(''o.scr'', ''Speed(10);\<newline>Jump(1);\<newline>Speed(15);''),
                 (''m.scr'', ''Speed(20);\<newline>Run(3);'')] []"
  have m: "?r \<in> set (compare_plain_text_files ?L ''o.scr'' ''m.scr'' 3 True 5)"
    by (simp add: example_two_params)
  have t: "diff_truncated ?r" by simp
  show ?thesis using truncated_result_uses_fallback[OF m t] example_two_params by simp
qed



section \<open>The two readings of a function-call line\<close>

lemma strip_hd:
  "xs \<noteq> [] \<Longrightarrow> \<not> P (hd xs) \<Longrightarrow>
   dropWhile P (rev (dropWhile P (rev xs))) = rev (dropWhile P (rev xs))"
  by (cases xs) (auto simp: dropWhile_append)

lemma strip_strip: "strip (strip s) = strip s"
proof (cases "dropWhile isspace s")
  case Nil
  have e: "strip s = []" unfolding strip_def Nil by simp
  show ?thesis unfolding e by (simp add: strip_def)
next
  case (Cons x xs)
  have "\<not> isspace (hd (dropWhile isspace s))" using Cons hd_dropWhile[of isspace s] by simp
  then have "dropWhile isspace (rev (dropWhile isspace (rev (dropWhile isspace s))))
          = rev (dropWhile isspace (rev (dropWhile isspace s)))"
    using strip_hd[of "dropWhile isspace s" isspace] Cons by simp
  then show ?thesis by (simp add: strip_def)
qed

lemma split_on_not_Nil: "split_on c s \<noteq> []"
  by (induction s) (auto split: list.splits)

lemma last_part: "strip (last (map strip (split_on c s))) = strip (last (split_on c s))"
  by (simp add: last_map split_on_not_Nil strip_strip)

lemma prop_re_empty: "re_search prop_re [] = None"
  by code_simp

text \<open>
  C9.  Take a line that the \<open>Param\<close> pattern does not match and the function-call pattern
  matches, with a comma in its stripped argument text.  The whole-file fallback stores, under
  the function name, the whole stripped argument text; the extractor of the diff mode
  returns, for the same name, only the part after the last comma, stripped.  Both remove
  one pair of enclosing double quotes from the value they keep, so the two modes can give
  different values for the same line.
\<close>

theorem fallback_keeps_all_arguments:
  assumes "re_search param_re line = None"
      and "re_search prop_re line = Some m"
      and "CHR '','' \<in> set (strip (grp m 2))"
  shows "parse_params [line] = [(grp m 1, unquote (strip (grp m 2)))] \<and>
         extract_param_from_line line
           = Some (grp m 1, unquote (strip (last (split_on CHR '','' (strip (grp m 2))))))"
proof -
  have ne: "line \<noteq> []" using assms(2) prop_re_empty by auto
  have p: "parse_params_line line = Some (grp m 1, unquote (strip (grp m 2)))"
    using assms(1,2) by (simp add: parse_params_line_def)
  have "parse_params [line] = [(grp m 1, unquote (strip (grp m 2)))]"
    by (simp add: parse_params_def p)
  moreover have "extract_param_from_line line
           = Some (grp m 1, unquote (strip (last (split_on CHR '','' (strip (grp m 2))))))"
    using assms ne by (simp add: extract_param_from_line_def Let_def last_part)
  ultimately show ?thesis by simp
qed

lemma bone_param_re:
  "re_search param_re (''bone('' @ [dquote] @ ''PELVIS'' @ [dquote] @ '', '' @ [dquote] @ ''Pelvis'' @ [dquote] @ '');'') = None"
  by code_simp

lemma bone_prop_re:
  "re_search prop_re (''bone('' @ [dquote] @ ''PELVIS'' @ [dquote] @ '', '' @ [dquote] @ ''Pelvis'' @ [dquote] @ '');'')
     = Some [(2, [dquote] @ ''PELVIS'' @ [dquote] @ '', '' @ [dquote] @ ''Pelvis'' @ [dquote]), (1, ''bone'')]"
  by code_simp

lemma bone_comma:
  "CHR '','' \<in> set (strip (grp [(2, [dquote] @ ''PELVIS'' @ [dquote] @ '', '' @ [dquote] @ ''Pelvis'' @ [dquote]), (1, ''bone'')] 2))"
  by code_simp

lemma bone_values:
  "unquote (strip (grp [(2, [dquote] @ ''PELVIS'' @ [dquote] @ '', '' @ [dquote] @ ''Pelvis'' @ [dquote]), (1, ''bone'')] 2))
     = ''PELVIS'' @ [dquote] @ '', '' @ [dquote] @ ''Pelvis''"
  "unquote (strip (last (split_on CHR '',''
       (strip (grp [(2, [dquote] @ ''PELVIS'' @ [dquote] @ '', '' @ [dquote] @ ''Pelvis'' @ [dquote]), (1, ''bone'')] 2)))))
     = ''Pelvis''"
  "grp [(2, [dquote] @ ''PELVIS'' @ [dquote] @ '', '' @ [dquote] @ ''Pelvis'' @ [dquote]), (1, ''bone'')] 1 = ''bone''"
  by code_simp+

theorem fallback_keeps_all_arguments_witness:
  "re_search param_re (''bone('' @ [dquote] @ ''PELVIS'' @ [dquote] @ '', '' @ [dquote] @ ''Pelvis'' @ [dquote] @ '');'') = None \<and>
   parse_params [''bone('' @ [dquote] @ ''PELVIS'' @ [dquote] @ '', '' @ [dquote] @ ''Pelvis'' @ [dquote] @ '');'']
     = [(''bone'', ''PELVIS'' @ [dquote] @ '', '' @ [dquote] @ ''Pelvis'')] \<and>
   extract_param_from_line (''bone('' @ [dquote] @ ''PELVIS'' @ [dquote] @ '', '' @ [dquote] @ ''Pelvis'' @ [dquote] @ '');'')
     = Some (''bone'', ''Pelvis'')"
  using fallback_keeps_all_arguments[OF bone_param_re bone_prop_re bone_comma] bone_param_re
  by (simp only: bone_values simp_thms)



section \<open>A single changed value\<close>

lemma step_skipped: "is_skipped l \<Longrightarrow> step st l = st"
  by (auto simp: is_skipped_def step_def split: list.splits)

lemma foldl_step_skipped: "\<forall>l \<in> set ls. is_skipped l \<Longrightarrow> foldl step st ls = st"
  by (induction ls arbitrary: st) (simp_all add: step_skipped)

lemma step_valid_header:
  assumes "startswith h ''@@''" and "hunk_starts h = (Some a, Some b)"
  shows "step init_state h =
           \<lparr>changes = [], old_line_num = Some a, new_line_num = Some b, last_was_minus = False,
            last_minus_content = None, last_minus_line_num = None\<rparr>"
  using assms by (simp add: step_def init_state_def clear_pending_def del: startswith_Cons)

lemma step_context_line:
  assumes "l = [] \<or> is_context l"
  shows "step \<lparr>changes = cs, old_line_num = Some a, new_line_num = Some b, last_was_minus = False,
               last_minus_content = None, last_minus_line_num = None\<rparr> l
         = \<lparr>changes = cs, old_line_num = Some (a + context_count [l]),
            new_line_num = Some (b + context_count [l]), last_was_minus = False,
            last_minus_content = None, last_minus_line_num = None\<rparr>"
  using assms
  by (auto simp: step_def is_context_def context_count_def pending_def incr_def Let_def
           split: list.splits)

lemma context_count_Cons: "context_count (l # ls) = context_count [l] + context_count ls"
  by (simp add: context_count_def)

lemma foldl_step_context:
  assumes "\<forall>l \<in> set ls. l = [] \<or> is_context l"
  shows "foldl step \<lparr>changes = cs, old_line_num = Some a, new_line_num = Some b,
                     last_was_minus = False, last_minus_content = None,
                     last_minus_line_num = None\<rparr> ls
         = \<lparr>changes = cs, old_line_num = Some (a + context_count ls),
            new_line_num = Some (b + context_count ls), last_was_minus = False,
            last_minus_content = None, last_minus_line_num = None\<rparr>"
  using assms
proof (induction ls arbitrary: a b)
  case Nil
  show ?case by (simp add: context_count_def)
next
  case (Cons l ls)
  have l: "l = [] \<or> is_context l" and ls: "\<forall>l \<in> set ls. l = [] \<or> is_context l"
    using Cons.prems by simp_all
  show ?case
    using Cons.IH[OF ls, of "a + context_count [l]" "b + context_count [l]"]
    by (simp add: step_context_line[OF l] context_count_Cons[of l ls] add.assoc)
qed

lemma step_health_pair:
  "step (step \<lparr>changes = [], old_line_num = Some a, new_line_num = Some b, last_was_minus = False,
               last_minus_content = None, last_minus_line_num = None\<rparr>
           (CHR ''-'' # health_old)) (CHR ''+'' # health_new)
   = \<lparr>changes = [(Some health_old, Some health_new, Some a, Some b)],
      old_line_num = Some (a + 1), new_line_num = Some (b + 1), last_was_minus = False,
      last_minus_content = None, last_minus_line_num = None\<rparr>"
  by (simp add: step_def health_old_def health_new_def pending_def emit_def clear_pending_def
                incr_def Let_def)

lemma health_param_change:
  "extract_param_changes_from_diff [(Some health_old, Some health_new, n, k)] False
     = [(''Health'', ''100'', ''150'')]"
proof -
  have o: "extract_param_from_line health_old = Some (''Health'', ''100'')" by code_simp
  have n: "extract_param_from_line health_new = Some (''Health'', ''150'')" by code_simp
  have ne: "health_old \<noteq> []" "health_new \<noteq> []" by (simp_all add: health_old_def health_new_def)
  show ?thesis
    by (simp add: extract_param_changes_from_diff_def on_line_def ne o n change_of_def truthy_def)
qed

text \<open>
  C7.  Take a diff whose only hunk replaces the line \<open>Param("Health", 100);\<close> by the line
  \<open>Param("Health", 150);\<close>: file header lines and empty lines \<open>pre\<close>, a hunk header \<open>h\<close>
  with the same valid start \<open>a\<close> on both sides, context or empty lines \<open>before\<close>, the
  removal, the addition, and context or empty lines \<open>after\<close>.  The extractor returns exactly
  one tuple, which pairs the two lines with the same line number on both sides (the start
  plus the number of context lines before the change), and in generic mode the parameter
  extractor returns exactly the change of \<open>Health\<close> from \<open>100\<close> to \<open>150\<close>.
\<close>

theorem single_value_change:
  assumes "\<forall>l \<in> set pre. is_skipped l"
      and "startswith h ''@@''" and "hunk_starts h = (Some a, Some a)"
      and "\<forall>l \<in> set before. l = [] \<or> is_context l"
      and "\<forall>l \<in> set after. l = [] \<or> is_context l"
  shows "extract_lines (pre @ h # before @ (CHR ''-'' # health_old) # (CHR ''+'' # health_new) # after)
           = [(Some health_old, Some health_new, Some (a + context_count before),
               Some (a + context_count before))] \<and>
         extract_param_changes_from_diff
           (extract_lines (pre @ h # before @ (CHR ''-'' # health_old) # (CHR ''+'' # health_new) # after))
           False
           = [(''Health'', ''100'', ''150'')]"
proof -
  let ?n = "a + context_count before"
  let ?ls = "pre @ h # before @ (CHR ''-'' # health_old) # (CHR ''+'' # health_new) # after"
  have "foldl step init_state ?ls
          = foldl step (step (step (foldl step (step (foldl step init_state pre) h) before)
                                (CHR ''-'' # health_old)) (CHR ''+'' # health_new)) after"
    by simp
  also have "\<dots> = foldl step
       \<lparr>changes = [(Some health_old, Some health_new, Some ?n, Some ?n)],
        old_line_num = Some (?n + 1), new_line_num = Some (?n + 1), last_was_minus = False,
        last_minus_content = None, last_minus_line_num = None\<rparr> after"
    by (simp only: foldl_step_skipped[OF assms(1)] step_valid_header[OF assms(2,3)]
                   foldl_step_context[OF assms(4)] step_health_pair)
  also have "\<dots> =
       \<lparr>changes = [(Some health_old, Some health_new, Some ?n, Some ?n)],
        old_line_num = Some (?n + 1 + context_count after),
        new_line_num = Some (?n + 1 + context_count after), last_was_minus = False,
        last_minus_content = None, last_minus_line_num = None\<rparr>"
    by (rule foldl_step_context[OF assms(5)])
  finally have "extract_lines ?ls = [(Some health_old, Some health_new, Some ?n, Some ?n)]"
    by (simp add: extract_lines_def flush_def pending_def)
  then show ?thesis by (simp add: health_param_change)
qed

lemma example_header: "hunk_starts ''@@ -4,3 +4,3 @@'' = (Some 4, Some 4)"
  by code_simp

lemma example_diff_lines:
  "splitlines (join [CHR 0x0A]
      [''--- original/a.scr\<newline>'', ''+++ modded/a.scr\<newline>'', ''@@ -4,3 +4,3 @@\<newline>'',
       '' Name(x);'', CHR ''-'' # health_old, CHR ''+'' # health_new, '' Speed(10);''])
   = [''--- original/a.scr'', [], ''+++ modded/a.scr'', []] @ ''@@ -4,3 +4,3 @@'' #
     [[], '' Name(x);''] @ (CHR ''-'' # health_old) # (CHR ''+'' # health_new) # ['' Speed(10);'']"
  by code_simp

theorem single_value_change_witness:
  "startswith ''@@ -4,3 +4,3 @@'' ''@@'' \<and> hunk_starts ''@@ -4,3 +4,3 @@'' = (Some 4, Some 4) \<and>
   extract_changed_lines (join [CHR 0x0A]
      [''--- original/a.scr\<newline>'', ''+++ modded/a.scr\<newline>'', ''@@ -4,3 +4,3 @@\<newline>'',
       '' Name(x);'', CHR ''-'' # health_old, CHR ''+'' # health_new, '' Speed(10);''])
     = [(Some health_old, Some health_new, Some 5, Some 5)] \<and>
   extract_param_changes_from_diff (extract_changed_lines (join [CHR 0x0A]
      [''--- original/a.scr\<newline>'', ''+++ modded/a.scr\<newline>'', ''@@ -4,3 +4,3 @@\<newline>'',
       '' Name(x);'', CHR ''-'' # health_old, CHR ''+'' # health_new, '' Speed(10);''])) False
     = [(''Health'', ''100'', ''150'')]"
proof -
  have p: "\<forall>l \<in> set [''--- original/a.scr'', [], ''+++ modded/a.scr'', []]. is_skipped l"
    by (simp add: is_skipped_def)
  have s: "startswith ''@@ -4,3 +4,3 @@'' ''@@''" by simp
  have b: "\<forall>l \<in> set [[], '' Name(x);'']. l = [] \<or> is_context l"
    by (simp add: is_context_def)
  have a: "\<forall>l \<in> set ['' Speed(10);'']. l = [] \<or> is_context l"
    by (simp add: is_context_def)
  have c: "context_count [[], '' Name(x);''] = 1"
    by (simp add: context_count_def is_context_def)
  show ?thesis
    unfolding extract_changed_lines_def example_diff_lines
    using single_value_change[OF p s example_header b a] s example_header
    by (auto simp: c)
qed



section \<open>JSON normalisation\<close>

lemma concat_replicate_spaces: "concat (replicate n (replicate m x)) = replicate (m * n) x"
  by (induction n) (simp_all add: replicate_add)

lemma newline_indent_two:
  "newline_indent (Some 2) lvl = CHR 0x0A # replicate (2 * lvl) CHR '' ''"
  by (simp add: newline_indent_def concat_replicate_spaces)

lemma sort_key_permuted:
  assumes "distinct (map fst kvs)" and "mset kvs' = mset kvs"
  shows "sort_key fst kvs' = sort_key fst kvs"
proof -
  have "mset (map fst kvs') = mset (map fst kvs)" using assms(2) by (metis mset_map)
  then have "distinct (map fst kvs')" using assms(1) by (metis mset_eq_imp_distinct_iff)
  then have i: "inj_on fst (set kvs')" by (simp add: distinct_map)
  show ?thesis
    by (rule sort_key_inj_key_eq[OF _ i]) (simp_all add: assms(2))
qed

lemma show_nat_not_Nil: "show_nat n \<noteq> []"
  by (subst show_nat.simps) simp

lemma iterencode_not_Nil:
  assumes "\<forall>f. fs f \<noteq> []"
  shows "iterencode fs ind sk ea lvl v \<noteq> []"
  using assms by (cases v) (simp_all add: int_repr_def show_nat_not_Nil encode_string_def)

lemma normalize_json_not_Nil:
  assumes "\<forall>f. float_repr L f \<noteq> []"
  shows "normalize_json L t \<noteq> Some []"
  using iterencode_not_Nil[OF assms]
  by (simp add: normalize_json_def json_dumps_def split: option.splits)

lemma compared_texts_json:
  "compared_texts L p ob mb = (oc, mc, True) \<longleftrightarrow>
     lower (path_suffix L p) \<in> {''.json'', ''.gui'', ''.cfg''} \<and>
     normalize_json L (decode_text L ob) = Some oc \<and>
     normalize_json L (decode_text L mb) = Some mc \<and> oc \<noteq> [] \<and> mc \<noteq> []"
  by (cases "normalize_json L (decode_text L ob)"; cases "normalize_json L (decode_text L mb)")
     (auto simp: compared_texts_def Let_def str_truthy_def)

lemma compared_texts_plain:
  assumes "lower (path_suffix L p) \<notin> {''.json'', ''.gui'', ''.cfg''} \<or>
           json_loads L (decode_text L ob) = None \<or> json_loads L (decode_text L mb) = None"
  shows "compared_texts L p ob mb = (decode_text L ob, decode_text L mb, False)"
  using assms by (auto simp: compared_texts_def Let_def str_truthy_def normalize_json_def)

text \<open>
  C6.  \<open>normalize_json\<close> returns null when the text does not parse as JSON, and otherwise
  the serialisation of the parsed value with the options \<open>indent=2\<close>, \<open>sort_keys=True\<close> and
  \<open>ensure_ascii=False\<close>.  That serialisation is canonical: a dict is written with each item
  on a line of its own, indented by two spaces per nesting level, the items in the
  lexicographic order of their keys, whatever the order in which the dict holds them; a
  list is written in the same layout with its elements in their own order.  The comparator
  compares the two normalised texts, in JSON mode, exactly when the suffix of the original
  path is \<open>.json\<close>, \<open>.gui\<close> or \<open>.cfg\<close> (in any letter case) and both texts normalise to a
  text that is not empty, which every text that parses does; when the suffix is another
  one, or either text fails to parse, it compares the two decoded texts as they are, with
  the JSON mode off.  The diff, the changed lines and the parameter changes of the result
  are computed from the texts and the mode so chosen.
\<close>

theorem json_normalization_gate:
  "(json_loads L t = None \<longrightarrow> normalize_json L t = None) \<and>
   (json_loads L t = Some v \<longrightarrow>
      normalize_json L t = Some (iterencode (float_repr L) (Some 2) True False 0 v)) \<and>
   iterencode fs (Some 2) True False lvl (JObj []) = ''{}'' \<and>
   (kvs \<noteq> [] \<longrightarrow>
      iterencode fs (Some 2) True False lvl (JObj kvs) =
        ''{'' @ CHR 0x0A # replicate (2 * (lvl + 1)) CHR '' ''
        @ join ('','' @ CHR 0x0A # replicate (2 * (lvl + 1)) CHR '' '')
            (map (\<lambda>(k, x). encode_string False k @ '': '' @ iterencode fs (Some 2) True False (lvl + 1) x)
                 (sort_key fst kvs))
        @ CHR 0x0A # replicate (2 * lvl) CHR '' '' @ ''}'') \<and>
   sorted (map fst (sort_key fst kvs)) \<and>
   (distinct (map fst kvs) \<and> mset kvs' = mset kvs \<longrightarrow>
      iterencode fs (Some 2) True False lvl (JObj kvs') = iterencode fs (Some 2) True False lvl (JObj kvs)) \<and>
   iterencode fs (Some 2) True False lvl (JArr []) = ''[]'' \<and>
   (xs \<noteq> [] \<longrightarrow>
      iterencode fs (Some 2) True False lvl (JArr xs) =
        ''['' @ CHR 0x0A # replicate (2 * (lvl + 1)) CHR '' ''
        @ join ('','' @ CHR 0x0A # replicate (2 * (lvl + 1)) CHR '' '')
            (map (iterencode fs (Some 2) True False (lvl + 1)) xs)
        @ CHR 0x0A # replicate (2 * lvl) CHR '' '' @ '']'') \<and>
   (compared_texts L p ob mb = (oc, mc, True) \<longleftrightarrow>
      lower (path_suffix L p) \<in> {''.json'', ''.gui'', ''.cfg''} \<and>
      normalize_json L (decode_text L ob) = Some oc \<and>
      normalize_json L (decode_text L mb) = Some mc \<and> oc \<noteq> [] \<and> mc \<noteq> []) \<and>
   ((\<forall>f. float_repr L f \<noteq> []) \<and>
    lower (path_suffix L p) \<in> {''.json'', ''.gui'', ''.cfg''} \<and>
    json_loads L (decode_text L ob) = Some vo \<and> json_loads L (decode_text L mb) = Some vm \<longrightarrow>
      compared_texts L p ob mb =
        (iterencode (float_repr L) (Some 2) True False 0 vo,
         iterencode (float_repr L) (Some 2) True False 0 vm, True)) \<and>
   (lower (path_suffix L p) \<notin> {''.json'', ''.gui'', ''.cfg''} \<or>
    json_loads L (decode_text L ob) = None \<or> json_loads L (decode_text L mb) = None \<longrightarrow>
      compared_texts L p ob mb = (decode_text L ob, decode_text L mb, False)) \<and>
   (read_bytes L p = Some ob \<and> read_bytes L q = Some mb \<and> ob \<noteq> mb \<and>
    is_text L ob \<and> is_text L mb \<and>
    int (length ob) \<le> max_text_bytes \<and> int (length mb) \<le> max_text_bytes \<and>
    compared_texts L p ob mb = (oc', mc', js) \<and>
    d = join [CHR 0x0A] (unified_diff L (splitlines oc') (splitlines mc')
          (''original/'' @ path_name L p) (''modded/'' @ path_name L q) ctx) \<longrightarrow>
      compare_plain_text_files L p q ctx True max_text_bytes
        = [\<lparr>path = path_name L p, kind = ''modified-text'', diff = Some d,
            param_changes = or_None (if extract_changed_lines d \<noteq> []
               then extract_param_changes_from_diff (extract_changed_lines d) js else []),
            diff_truncated = False, changed_lines = Some (extract_changed_lines d)\<rparr>])"
proof (intro conjI impI)
  assume "json_loads L t = None"
  then show "normalize_json L t = None" by (simp add: normalize_json_def)
next
  assume "json_loads L t = Some v"
  then show "normalize_json L t = Some (iterencode (float_repr L) (Some 2) True False 0 v)"
    by (simp add: normalize_json_def json_dumps_def)
next
  show "iterencode fs (Some 2) True False lvl (JObj []) = ''{}''" by simp
next
  assume "kvs \<noteq> []"
  then show "iterencode fs (Some 2) True False lvl (JObj kvs) =
        ''{'' @ CHR 0x0A # replicate (2 * (lvl + 1)) CHR '' ''
        @ join ('','' @ CHR 0x0A # replicate (2 * (lvl + 1)) CHR '' '')
            (map (\<lambda>(k, x). encode_string False k @ '': '' @ iterencode fs (Some 2) True False (lvl + 1) x)
                 (sort_key fst kvs))
        @ CHR 0x0A # replicate (2 * lvl) CHR '' '' @ ''}''"
    by (simp add: newline_indent_two item_separator_def ordered_items_def)
next
  show "sorted (map fst (sort_key fst kvs))" by (rule sorted_sort_key)
next
  assume a: "distinct (map fst kvs) \<and> mset kvs' = mset kvs"
  then have s: "sort_key fst kvs' = sort_key fst kvs" by (simp add: sort_key_permuted)
  have "kvs' = [] \<longleftrightarrow> kvs = []" using a by (metis mset_zero_iff)
  then show "iterencode fs (Some 2) True False lvl (JObj kvs') = iterencode fs (Some 2) True False lvl (JObj kvs)"
    by (simp add: ordered_items_def s)
next
  show "iterencode fs (Some 2) True False lvl (JArr []) = ''[]''" by simp
next
  assume "xs \<noteq> []"
  then show "iterencode fs (Some 2) True False lvl (JArr xs) =
        ''['' @ CHR 0x0A # replicate (2 * (lvl + 1)) CHR '' ''
        @ join ('','' @ CHR 0x0A # replicate (2 * (lvl + 1)) CHR '' '')
            (map (iterencode fs (Some 2) True False (lvl + 1)) xs)
        @ CHR 0x0A # replicate (2 * lvl) CHR '' '' @ '']''"
    by (simp add: newline_indent_two item_separator_def)
next
  show "compared_texts L p ob mb = (oc, mc, True) \<longleftrightarrow>
      lower (path_suffix L p) \<in> {''.json'', ''.gui'', ''.cfg''} \<and>
      normalize_json L (decode_text L ob) = Some oc \<and>
      normalize_json L (decode_text L mb) = Some mc \<and> oc \<noteq> [] \<and> mc \<noteq> []"
    by (rule compared_texts_json)
next
  assume a: "(\<forall>f. float_repr L f \<noteq> []) \<and>
    lower (path_suffix L p) \<in> {''.json'', ''.gui'', ''.cfg''} \<and>
    json_loads L (decode_text L ob) = Some vo \<and> json_loads L (decode_text L mb) = Some vm"
  then have fl: "\<forall>f. float_repr L f \<noteq> []" by simp
  have no: "normalize_json L (decode_text L ob) = Some (iterencode (float_repr L) (Some 2) True False 0 vo)"
    and nm: "normalize_json L (decode_text L mb) = Some (iterencode (float_repr L) (Some 2) True False 0 vm)"
    using a by (simp_all add: normalize_json_def json_dumps_def)
  show "compared_texts L p ob mb =
        (iterencode (float_repr L) (Some 2) True False 0 vo,
         iterencode (float_repr L) (Some 2) True False 0 vm, True)"
    using a no nm iterencode_not_Nil[OF fl] by (simp add: compared_texts_json)
next
  assume "lower (path_suffix L p) \<notin> {''.json'', ''.gui'', ''.cfg''} \<or>
    json_loads L (decode_text L ob) = None \<or> json_loads L (decode_text L mb) = None"
  then show "compared_texts L p ob mb = (decode_text L ob, decode_text L mb, False)"
    by (rule compared_texts_plain)
next
  assume a: "read_bytes L p = Some ob \<and> read_bytes L q = Some mb \<and> ob \<noteq> mb \<and>
    is_text L ob \<and> is_text L mb \<and>
    int (length ob) \<le> max_text_bytes \<and> int (length mb) \<le> max_text_bytes \<and>
    compared_texts L p ob mb = (oc', mc', js) \<and>
    d = join [CHR 0x0A] (unified_diff L (splitlines oc') (splitlines mc')
          (''original/'' @ path_name L p) (''modded/'' @ path_name L q) ctx)"
  then have d: "d = join [CHR 0x0A] (unified_diff L
         (splitlines (fst (compared_texts L p ob mb)))
         (splitlines (fst (snd (compared_texts L p ob mb))))
         (''original/'' @ path_name L p) (''modded/'' @ path_name L q) ctx)"
    by simp
  have "compare_plain_text_files L p q ctx True max_text_bytes
     = [\<lparr>path = path_name L p, kind = ''modified-text'', diff = Some d,
         param_changes = or_None (if extract_changed_lines d \<noteq> []
            then extract_param_changes_from_diff (extract_changed_lines d)
                   (snd (snd (compared_texts L p ob mb)))
            else []),
         diff_truncated = False, changed_lines = Some (extract_changed_lines d)\<rparr>]"
    using a by (intro compare_full[OF _ _ _ _ _ _ _ _ d]) simp_all
  then show "compare_plain_text_files L p q ctx True max_text_bytes
        = [\<lparr>path = path_name L p, kind = ''modified-text'', diff = Some d,
            param_changes = or_None (if extract_changed_lines d \<noteq> []
               then extract_param_changes_from_diff (extract_changed_lines d) js else []),
            diff_truncated = False, changed_lines = Some (extract_changed_lines d)\<rparr>]"
    using a by simp
qed


lemma json_example_loads:
  "json_loads json_lib json_bad_text = None"
  "json_loads json_lib json_orig_text
     = Some (JObj [(''tags'', JArr [JStr ''b'', JStr ''a'']), (''hp'', JInt 100)])"
  "json_loads json_lib json_mod_text
     = Some (JObj [(''hp'', JInt 150), (''tags'', JArr [JStr ''b'', JStr ''a''])])"
  by code_simp+

lemma json_example_normalized:
  "iterencode (float_repr json_lib) (Some 2) True False 0
     (JObj [(''tags'', JArr [JStr ''b'', JStr ''a'']), (''hp'', JInt 100)])
     = join [CHR 0x0A] json_orig_lines"
  "iterencode (float_repr json_lib) (Some 2) True False 0
     (JObj [(''hp'', JInt 150), (''tags'', JArr [JStr ''b'', JStr ''a''])])
     = join [CHR 0x0A] json_mod_lines"
  by code_simp+

lemma json_example_library:
  "lower (path_suffix json_lib ''A.JSON'') = ''.json''"
  "decode_text json_lib json_orig_text = json_orig_text"
  "decode_text json_lib json_mod_text = json_mod_text"
  "decode_text json_lib json_bad_text = json_bad_text"
  "read_bytes json_lib ''A.JSON'' = Some json_orig_text"
  "read_bytes json_lib ''b.json'' = Some json_mod_text"
  "read_bytes json_lib ''c.json'' = Some json_bad_text"
  "is_text json_lib json_orig_text" "is_text json_lib json_mod_text" "is_text json_lib json_bad_text"
  "json_orig_text \<noteq> json_mod_text" "json_orig_text \<noteq> json_bad_text"
  "int (length json_orig_text) \<le> 1000000" "int (length json_mod_text) \<le> 1000000"
  "int (length json_bad_text) \<le> 1000000"
  by code_simp+

lemma json_example_diffs:
  "unified_diff json_lib (splitlines (join [CHR 0x0A] json_orig_lines))
      (splitlines (join [CHR 0x0A] json_mod_lines))
      (''original/'' @ path_name json_lib ''A.JSON'') (''modded/'' @ path_name json_lib ''b.json'') 3
     = json_pair_diff"
  "unified_diff json_lib (splitlines json_orig_text) (splitlines json_bad_text)
      (''original/'' @ path_name json_lib ''A.JSON'') (''modded/'' @ path_name json_lib ''c.json'') 3
     = plain_pair_diff"
  by code_simp+

lemma json_example_extracted:
  \<open>extract_changed_lines (join [CHR 0x0A] json_pair_diff)
     = [(Some ''  "hp": 100,'', Some ''  "hp": 150,'', Some 2, Some 2)]\<close>
  \<open>extract_param_changes_from_diff
      [(Some ''  "hp": 100,'', Some ''  "hp": 150,'', Some 2, Some 2)] True
     = [(''hp'', ''100'', ''150'')]\<close>
  "extract_changed_lines (join [CHR 0x0A] plain_pair_diff)
     = [(Some json_orig_text, Some json_bad_text, Some 1, Some 1)]"
  "extract_param_changes_from_diff
      [(Some json_orig_text, Some json_bad_text, Some 1, Some 1)] False = []"
  by code_simp+

theorem json_normalization_gate_witness:
  \<open>json_loads json_lib json_bad_text = None \<and>
   normalize_json json_lib json_bad_text = None \<and>
   normalize_json json_lib json_orig_text = Some (join [CHR 0x0A] json_orig_lines) \<and>
   normalize_json json_lib json_mod_text = Some (join [CHR 0x0A] json_mod_lines) \<and>
   iterencode (float_repr json_lib) (Some 2) True False 0
     (JObj [(''hp'', JInt 100), (''tags'', JArr [JStr ''b'', JStr ''a''])])
     = join [CHR 0x0A] json_orig_lines \<and>
   iterencode (float_repr json_lib) (Some 2) True False 1 (JArr [JStr ''b'', JStr ''a''])
     = ''[\<newline>    "b",\<newline>    "a"\<newline>  ]'' \<and>
   lower (path_suffix json_lib ''A.JSON'') = ''.json'' \<and>
   compared_texts json_lib ''A.JSON'' json_orig_text json_mod_text
     = (join [CHR 0x0A] json_orig_lines, join [CHR 0x0A] json_mod_lines, True) \<and>
   compared_texts json_lib ''A.JSON'' json_orig_text json_bad_text
     = (json_orig_text, json_bad_text, False) \<and>
   compare_plain_text_files json_lib ''A.JSON'' ''b.json'' 3 True 1000000
     = [\<lparr>path = ''A.JSON'', kind = ''modified-text'',
         diff = Some (join [CHR 0x0A] json_pair_diff),
         param_changes = Some [(''hp'', ''100'', ''150'')], diff_truncated = False,
         changed_lines = Some [(Some ''  "hp": 100,'', Some ''  "hp": 150,'', Some 2, Some 2)]\<rparr>] \<and>
   compare_plain_text_files json_lib ''A.JSON'' ''c.json'' 3 True 1000000
     = [\<lparr>path = ''A.JSON'', kind = ''modified-text'',
         diff = Some (join [CHR 0x0A] plain_pair_diff),
         param_changes = None, diff_truncated = False,
         changed_lines = Some [(Some json_orig_text, Some json_bad_text, Some 1, Some 1)]\<rparr>]\<close>
proof -
  let ?vo = "JObj [(''tags'', JArr [JStr ''b'', JStr ''a'']), (''hp'', JInt 100)] :: unit json"
  let ?vm = "JObj [(''hp'', JInt 150), (''tags'', JArr [JStr ''b'', JStr ''a''])] :: unit json"
  have fl: "\<forall>f. float_repr json_lib f \<noteq> []" by (simp add: json_lib_def)
  have n1: "normalize_json json_lib json_bad_text = None"
    using json_normalization_gate[where L = json_lib and t = json_bad_text, THEN conjunct1]
          json_example_loads(1)
    by simp
  have n2: "normalize_json json_lib json_orig_text = Some (join [CHR 0x0A] json_orig_lines)"
    using json_normalization_gate[where L = json_lib and t = json_orig_text and v = ?vo,
            THEN conjunct2, THEN conjunct1]
          json_example_loads(2) json_example_normalized(1)
    by simp
  have n3: "normalize_json json_lib json_mod_text = Some (join [CHR 0x0A] json_mod_lines)"
    using json_normalization_gate[where L = json_lib and t = json_mod_text and v = ?vm,
            THEN conjunct2, THEN conjunct1]
          json_example_loads(3) json_example_normalized(2)
    by simp
  have n4: "iterencode (float_repr json_lib) (Some 2) True False 0
     (JObj [(''hp'', JInt 100), (''tags'', JArr [JStr ''b'', JStr ''a''])])
     = join [CHR 0x0A] json_orig_lines"
    using json_normalization_gate[where fs = "float_repr json_lib" and lvl = 0
            and kvs = "[(''tags'', JArr [JStr ''b'', JStr ''a'']), (''hp'', JInt 100)]"
            and kvs' = "[(''hp'', JInt 100), (''tags'', JArr [JStr ''b'', JStr ''a''])]",
            THEN conjunct2, THEN conjunct2, THEN conjunct2, THEN conjunct2, THEN conjunct2, THEN conjunct1]
          json_example_normalized(1)
    by simp
  have n5: \<open>iterencode (float_repr json_lib) (Some 2) True False 1 (JArr [JStr ''b'', JStr ''a''])
     = ''[\<newline>    "b",\<newline>    "a"\<newline>  ]''\<close>
    by (subst json_normalization_gate[where fs = "float_repr json_lib" and lvl = 1
            and xs = "[JStr ''b'', JStr ''a'']",
            THEN conjunct2, THEN conjunct2, THEN conjunct2, THEN conjunct2, THEN conjunct2, THEN conjunct2, THEN conjunct2, THEN conjunct1, rule_format])
       code_simp+
  have c1: "compared_texts json_lib ''A.JSON'' json_orig_text json_mod_text
     = (join [CHR 0x0A] json_orig_lines, join [CHR 0x0A] json_mod_lines, True)"
    using json_normalization_gate[where L = json_lib and p = "''A.JSON''" and ob = json_orig_text
            and mb = json_mod_text and vo = ?vo and vm = ?vm,
            THEN conjunct2, THEN conjunct2, THEN conjunct2, THEN conjunct2, THEN conjunct2, THEN conjunct2, THEN conjunct2, THEN conjunct2, THEN conjunct2, THEN conjunct1]
          fl json_example_loads json_example_normalized json_example_library
    by simp
  have c2: "compared_texts json_lib ''A.JSON'' json_orig_text json_bad_text
     = (json_orig_text, json_bad_text, False)"
    using json_normalization_gate[where L = json_lib and p = "''A.JSON''" and ob = json_orig_text
            and mb = json_bad_text,
            THEN conjunct2, THEN conjunct2, THEN conjunct2, THEN conjunct2, THEN conjunct2, THEN conjunct2, THEN conjunct2, THEN conjunct2, THEN conjunct2, THEN conjunct2, THEN conjunct1]
          json_example_loads json_example_library
    by simp
  have r1: \<open>compare_plain_text_files json_lib ''A.JSON'' ''b.json'' 3 True 1000000
     = [\<lparr>path = ''A.JSON'', kind = ''modified-text'',
         diff = Some (join [CHR 0x0A] json_pair_diff),
         param_changes = Some [(''hp'', ''100'', ''150'')], diff_truncated = False,
         changed_lines = Some [(Some ''  "hp": 100,'', Some ''  "hp": 150,'', Some 2, Some 2)]\<rparr>]\<close>
    using json_normalization_gate[where L = json_lib and p = "''A.JSON''" and q = "''b.json''"
            and ob = json_orig_text and mb = json_mod_text and js = True and ctx = 3
            and max_text_bytes = 1000000
            and oc' = "join [CHR 0x0A] json_orig_lines" and mc' = "join [CHR 0x0A] json_mod_lines"
            and d = "join [CHR 0x0A] json_pair_diff",
            THEN conjunct2, THEN conjunct2, THEN conjunct2, THEN conjunct2, THEN conjunct2, THEN conjunct2, THEN conjunct2, THEN conjunct2, THEN conjunct2, THEN conjunct2, THEN conjunct2]
          c1 json_example_library json_example_diffs(1)
    by (simp add: json_example_extracted or_None_def json_lib_def)
  have r2: "compare_plain_text_files json_lib ''A.JSON'' ''c.json'' 3 True 1000000
     = [\<lparr>path = ''A.JSON'', kind = ''modified-text'',
         diff = Some (join [CHR 0x0A] plain_pair_diff),
         param_changes = None, diff_truncated = False,
         changed_lines = Some [(Some json_orig_text, Some json_bad_text, Some 1, Some 1)]\<rparr>]"
    using json_normalization_gate[where L = json_lib and p = "''A.JSON''" and q = "''c.json''"
            and ob = json_orig_text and mb = json_bad_text and js = False and ctx = 3
            and max_text_bytes = 1000000
            and oc' = json_orig_text and mc' = json_bad_text
            and d = "join [CHR 0x0A] plain_pair_diff",
            THEN conjunct2, THEN conjunct2, THEN conjunct2, THEN conjunct2, THEN conjunct2, THEN conjunct2, THEN conjunct2, THEN conjunct2, THEN conjunct2, THEN conjunct2, THEN conjunct2]
          c2 json_example_library json_example_diffs(2)
    by (simp add: json_example_extracted or_None_def json_lib_def)
  show ?thesis
    using json_example_loads(1) n1 n2 n3 n4 n5 json_example_library(1) c1 c2 r1 r2 by simp
qed

end
